theory Spec2Isabelle
  imports Main "HOL-Library.AList"
begin

section \<open>Python objects handled by the plugin manager\<close>

text \<open>
  The development embeds \<^verbatim>\<open>pluggy/_manager.py\<close>. A plugin is an arbitrary Python object;
  the manager looks at four things of it: its identity, its \<^verbatim>\<open>__name__\<close> attribute, its truth
  value (\<^verbatim>\<open>if self._name2plugin.get(name):\<close>) and its members as \<^verbatim>\<open>dir\<close> and \<^verbatim>\<open>getattr\<close>
  give them. HOL equality of two plugin records stands for Python's \<^verbatim>\<open>==\<close> and \<^verbatim>\<open>is\<close> on
  plugin objects.
\<close>

text \<open>The options dictionary a marker leaves on a function; a key may be absent.\<close>

record raw_impl_opts =
  raw_tryfirst :: "bool option"
  raw_trylast :: "bool option"
  raw_hookwrapper :: "bool option"
  raw_optionalhook :: "bool option"
  raw_wrapper :: "bool option"
  raw_specname :: "string option"

text \<open>What \<^verbatim>\<open>getattr(method, key, None)\<close> can find: \<^verbatim>\<open>None\<close>, a dict, or anything else.\<close>

datatype attr_value = NoneValue | Dict raw_impl_opts | NotDict

record member =
  isroutine :: bool
  getattr_raises :: bool
  attrs :: "(string \<times> attr_value) list"
  varnames :: "string list \<times> string list"
  isgeneratorfunction :: bool

record plugin =
  ident :: nat
  dunder_name :: "string option"
  truthy :: bool
  members :: "(string \<times> member) list"

text \<open>The specification side: members of a namespace (module or class) and their marker.\<close>

record raw_spec_opts =
  raw_firstresult :: "bool option"
  raw_historic :: "bool option"
  raw_warn_on_impl :: "string option"

record spec_member =
  spec_attrs :: "(string \<times> raw_spec_opts) list"
  spec_varnames :: "string list \<times> string list"

record namespace =
  ns_ident :: nat
  ns_members :: "(string \<times> spec_member) list"

section \<open>Exceptions\<close>

text \<open>
  Every \<^verbatim>\<open>raise\<close> and \<^verbatim>\<open>assert\<close> of the module is a value. The two \<^verbatim>\<open>ValueError\<close>s of
  \<^verbatim>\<open>register\<close> are told apart by their message: "Plugin name already registered" is the
  specification's DuplicateNameError, "Plugin already registered under a different name" its
  DuplicatePluginError. \<^verbatim>\<open>PluginValidationError\<close> carries the plugin and its message; the
  message of \<^verbatim>\<open>check_pending\<close> ("unknown hook") is the specification's UnknownHookError.
\<close>

datatype value_error =
    Plugin_name_already_registered string
  | Plugin_already_registered_under_a_different_name string
  | Did_not_find_any_hooks

datatype validation_message =
    Historic_incompatible_to_hookwrapper string string
  | Arguments_not_in_hookspec string string "string set"
  | Not_a_generator_function string string
  | Unknown_hook string

datatype error =
    ValueError value_error
  | PluginValidationError plugin validation_message
  | AssertionError string
  | IndexError
  | AttributeError string
  | Raised string

section \<open>Hook implementations, specifications and callers\<close>

text \<open>
  Modelled from the spec: the classes \<^verbatim>\<open>HookImpl\<close>, \<^verbatim>\<open>HookSpec\<close> and \<^verbatim>\<open>_HookCaller\<close> of
  \<^verbatim>\<open>_hooks.py\<close>, which is not among the sources at hand (as \<^verbatim>\<open>_result.py\<close> and
  \<^verbatim>\<open>_callers.py\<close> are not). The records of this section follow the data model of section 3
  of the specification; each helper below names the sentence it follows.
\<close>

record HookImplOpts =
  opt_tryfirst :: bool
  opt_trylast :: bool
  opt_hookwrapper :: bool
  opt_optionalhook :: bool
  opt_wrapper :: bool
  opt_specname :: "string option"

record HookImpl =
  hookimpl_function :: member
  argnames :: "string list"
  kwargnames :: "string list"
  plugin :: plugin
  plugin_name :: string
  hookwrapper :: bool
  optionalhook :: bool
  tryfirst :: bool
  trylast :: bool
  wrapper :: bool
  specname :: "string option"

record HookSpec =
  spec_namespace :: namespace
  spec_name :: string
  spec_argnames :: "string list"
  spec_kwargnames :: "string list"
  firstresult :: bool
  historic :: bool
  warn_on_impl :: "string option"

type_synonym 'v kwargs = "(string \<times> 'v) list"

text \<open>A hook call returns one value (first-result mode) or the list of all results.\<close>

datatype 'v retval = Single "'v option" | Many "'v list"

text \<open>
  Plugin code and tracing callbacks act on a world \<open>'w\<close> outside the registry and may raise.
  The call engine is a value of the manager (\<^verbatim>\<open>self._inner_hookexec\<close>).
\<close>

type_synonym ('w, 'v) hookexec =
  "string \<Rightarrow> HookImpl list \<Rightarrow> 'v kwargs \<Rightarrow> bool \<Rightarrow> 'w \<Rightarrow> 'w \<times> (error + 'v retval)"

type_synonym ('w, 'v) result_callback = "'v \<Rightarrow> 'w \<Rightarrow> 'w \<times> (error + unit)"

record ('w, 'v) HookCaller =
  hc_name :: string
  hc_spec :: "HookSpec option"
  hc_hookimpls :: "HookImpl list"
  hc_call_history :: "('v kwargs \<times> ('w, 'v) result_callback option) list"

text \<open>
  Modelled from the spec: \<^verbatim>\<open>normalize_hookimpl_opts\<close> of \<^verbatim>\<open>_hooks.py\<close> (section 6: the core
  "only normalizes booleans"): an absent key gets its default.
\<close>

definition normalize_hookimpl_opts :: "raw_impl_opts \<Rightarrow> HookImplOpts" where
  "normalize_hookimpl_opts d =
     \<lparr> opt_tryfirst = (case raw_tryfirst d of None \<Rightarrow> False | Some b \<Rightarrow> b),
       opt_trylast = (case raw_trylast d of None \<Rightarrow> False | Some b \<Rightarrow> b),
       opt_hookwrapper = (case raw_hookwrapper d of None \<Rightarrow> False | Some b \<Rightarrow> b),
       opt_optionalhook = (case raw_optionalhook d of None \<Rightarrow> False | Some b \<Rightarrow> b),
       opt_wrapper = (case raw_wrapper d of None \<Rightarrow> False | Some b \<Rightarrow> b),
       opt_specname = raw_specname d \<rparr>"

text \<open>
  Modelled from the spec: the constructor \<^verbatim>\<open>HookImpl(plugin, plugin_name, function, opts)\<close>
  of \<^verbatim>\<open>_hooks.py\<close> (section 3: owning plugin, the callable, declared options and declared
  parameter names).
\<close>

definition mk_HookImpl :: "plugin \<Rightarrow> string \<Rightarrow> member \<Rightarrow> HookImplOpts \<Rightarrow> HookImpl" where
  "mk_HookImpl plug pname method opts =
     \<lparr> hookimpl_function = method,
       argnames = fst (varnames method),
       kwargnames = snd (varnames method),
       plugin = plug,
       plugin_name = pname,
       hookwrapper = opt_hookwrapper opts,
       optionalhook = opt_optionalhook opts,
       tryfirst = opt_tryfirst opts,
       trylast = opt_trylast opts,
       wrapper = opt_wrapper opts,
       specname = opt_specname opts \<rparr>"

text \<open>
  Modelled from the spec: the constructor \<^verbatim>\<open>HookSpec(namespace, name, opts)\<close> of
  \<^verbatim>\<open>_hooks.py\<close> (section 3: declared parameter names and the options first-result, historic
  and warning).
\<close>

definition mk_HookSpec :: "namespace \<Rightarrow> string \<Rightarrow> spec_member \<Rightarrow> raw_spec_opts \<Rightarrow> HookSpec" where
  "mk_HookSpec ns nm f d =
     \<lparr> spec_namespace = ns,
       spec_name = nm,
       spec_argnames = fst (spec_varnames f),
       spec_kwargnames = snd (spec_varnames f),
       firstresult = (case raw_firstresult d of None \<Rightarrow> False | Some b \<Rightarrow> b),
       historic = (case raw_historic d of None \<Rightarrow> False | Some b \<Rightarrow> b),
       warn_on_impl = raw_warn_on_impl d \<rparr>"

text \<open>
  Modelled from the spec: \<^verbatim>\<open>_HookCaller.has_spec\<close>, \<^verbatim>\<open>is_historic\<close> and
  \<^verbatim>\<open>get_hookimpls\<close> of \<^verbatim>\<open>_hooks.py\<close> (section 3: the caller is "optionally bound to a
  HookSpec"; section 4.5: "a HookCaller whose spec is historic").
\<close>

definition has_spec :: "('w, 'v) HookCaller \<Rightarrow> bool" where
  "has_spec hc = (hc_spec hc \<noteq> None)"

definition is_historic :: "('w, 'v) HookCaller \<Rightarrow> bool" where
  "is_historic hc = (case hc_spec hc of None \<Rightarrow> False | Some s \<Rightarrow> historic s)"

definition get_hookimpls :: "('w, 'v) HookCaller \<Rightarrow> HookImpl list" where
  "get_hookimpls hc = hc_hookimpls hc"

text \<open>
  Modelled from the spec: the constructor \<^verbatim>\<open>_HookCaller(name, hookexec)\<close> and
  \<^verbatim>\<open>set_specification\<close> of \<^verbatim>\<open>_hooks.py\<close> (section 3: a spec is bound once and a historic
  caller keeps a call log). What binding a second spec does is not specified; the model
  overwrites.
\<close>

definition mk_HookCaller :: "string \<Rightarrow> ('w, 'v) HookCaller" where
  "mk_HookCaller nm =
     \<lparr> hc_name = nm, hc_spec = None, hc_hookimpls = [], hc_call_history = [] \<rparr>"

definition set_specification ::
  "('w, 'v) HookCaller \<Rightarrow> namespace \<Rightarrow> spec_member \<Rightarrow> raw_spec_opts \<Rightarrow> ('w, 'v) HookCaller" where
  "set_specification hc ns f d = hc\<lparr>hc_spec := Some (mk_HookSpec ns (hc_name hc) f d)\<rparr>"

text \<open>
  Modelled from the spec: \<^verbatim>\<open>_HookCaller._add_hookimpl\<close> of \<^verbatim>\<open>_hooks.py\<close> (section 4.3,
  the tie-break rule: within each of wrappers and plain implementations, \<^verbatim>\<open>trylast\<close> sorts
  before \<^verbatim>\<open>tryfirst\<close>, registration order among equals). Plain implementations come before
  wrappers in the list.
\<close>

definition tier :: "HookImpl \<Rightarrow> nat" where
  "tier impl =
     (if hookwrapper impl \<or> wrapper impl then 3 else 0) +
     (if trylast impl then 0 else if tryfirst impl then 2 else 1)"

fun place :: "HookImpl \<Rightarrow> HookImpl list \<Rightarrow> HookImpl list" where
  "place x [] = [x]"
| "place x (y # ys) = (if tier x < tier y then x # y # ys else y # place x ys)"

definition add_hookimpl :: "('w, 'v) HookCaller \<Rightarrow> HookImpl \<Rightarrow> ('w, 'v) HookCaller" where
  "add_hookimpl hc impl = hc\<lparr>hc_hookimpls := place impl (hc_hookimpls hc)\<rparr>"

text \<open>
  Modelled from the spec: \<^verbatim>\<open>_HookCaller._remove_plugin\<close> of \<^verbatim>\<open>_hooks.py\<close> (section 4.2:
  unregistering "removes every HookImpl belonging to the plugin"). The plugin argument may
  be \<^verbatim>\<open>None\<close>.
\<close>

definition remove_plugin :: "('w, 'v) HookCaller \<Rightarrow> plugin option \<Rightarrow> ('w, 'v) HookCaller" where
  "remove_plugin hc plug =
     hc\<lparr>hc_hookimpls := filter (\<lambda>impl. Some (plugin impl) \<noteq> plug) (hc_hookimpls hc)\<rparr>"

text \<open>
  Modelled from the spec: \<^verbatim>\<open>_HookCaller._maybe_apply_history\<close> of \<^verbatim>\<open>_hooks.py\<close>
  (sections 4.1 and 4.5: a historic caller replays its logged calls, in log order, against
  the implementation being attached; a logged call may carry a post-processing callback).
  The replay goes through the engine with the one implementation.
\<close>

fun replay ::
  "('w, 'v) hookexec \<Rightarrow> string \<Rightarrow> HookImpl \<Rightarrow>
   ('v kwargs \<times> ('w, 'v) result_callback option) list \<Rightarrow> 'w \<Rightarrow> 'w \<times> (error + unit)" where
  "replay ex nm impl [] w = (w, Inr ())"
| "replay ex nm impl ((kw, cb) # rest) w =
     (case ex nm [impl] kw False w of
        (w1, Inl e) \<Rightarrow> (w1, Inl e)
      | (w1, Inr res) \<Rightarrow>
          (case (res, cb) of
             (Many (r # _), Some f) \<Rightarrow>
               (case f r w1 of
                  (w2, Inl e) \<Rightarrow> (w2, Inl e)
                | (w2, Inr _) \<Rightarrow> replay ex nm impl rest w2)
           | _ \<Rightarrow> replay ex nm impl rest w1))"

definition maybe_apply_history ::
  "('w, 'v) hookexec \<Rightarrow> ('w, 'v) HookCaller \<Rightarrow> HookImpl \<Rightarrow> 'w \<Rightarrow> 'w \<times> (error + unit)" where
  "maybe_apply_history ex hc impl w =
     (if is_historic hc then replay ex (hc_name hc) impl (hc_call_history hc) w
      else (w, Inr ()))"

section \<open>The plugin manager\<close>

text \<open>
  \<^verbatim>\<open>_name2plugin\<close> and the attribute dictionary of \<^verbatim>\<open>self.hook\<close> are Python dicts: keys in
  insertion order, a tombstone \<^verbatim>\<open>None\<close> for a blocked name. They are association lists
  here; \<^const>\<open>AList.update\<close> is \<^verbatim>\<open>d[k] = v\<close> and \<^const>\<open>AList.delete\<close> is \<^verbatim>\<open>del d[k]\<close>.
  A reference to a hook caller is its key in \<open>hook\<close>.
\<close>

record ('w, 'v) PluginManager =
  project_name :: string
  name2plugin :: "(string \<times> plugin option) list"
  plugin_distinfo :: "(plugin \<times> string) list"
  hook :: "(string \<times> ('w, 'v) HookCaller) list"
  inner_hookexec :: "('w, 'v) hookexec"

text \<open>\<^verbatim>\<open>PluginManager.__init__\<close>; the engine \<^verbatim>\<open>_multicall\<close> of \<^verbatim>\<open>_callers.py\<close> is a parameter.\<close>

definition init :: "string \<Rightarrow> ('w, 'v) hookexec \<Rightarrow> ('w, 'v) PluginManager" where
  "init pname multicall =
     \<lparr> project_name = pname, name2plugin = [], plugin_distinfo = [], hook = [],
       inner_hookexec = multicall \<rparr>"

definition hookexec ::
  "('w, 'v) PluginManager \<Rightarrow> ('w, 'v) hookexec" where
  "hookexec pm hook_name methods kw fr = inner_hookexec pm hook_name methods kw fr"

text \<open>Python's \<^verbatim>\<open>x or y\<close> on an optional string: \<^verbatim>\<open>None\<close> and the empty string are false.\<close>

definition py_or :: "string option \<Rightarrow> string \<Rightarrow> string" where
  "py_or x y = (case x of None \<Rightarrow> y | Some s \<Rightarrow> if s = [] then y else s)"

text \<open>\<^verbatim>\<open>str(id(plugin))\<close>: the identity in decimal.\<close>

fun str_nat :: "nat \<Rightarrow> string" where
  "str_nat n =
     (if n < 10 then [''0123456789'' ! n]
      else str_nat (n div 10) @ [''0123456789'' ! (n mod 10)])"

definition get_canonical_name :: "plugin \<Rightarrow> string" where
  "get_canonical_name plug = py_or (dunder_name plug) (str_nat (ident plug))"

definition get_plugin :: "('w, 'v) PluginManager \<Rightarrow> string \<Rightarrow> plugin option" where
  "get_plugin pm nm = (case map_of (name2plugin pm) nm of None \<Rightarrow> None | Some v \<Rightarrow> v)"

definition has_plugin :: "('w, 'v) PluginManager \<Rightarrow> string \<Rightarrow> bool" where
  "has_plugin pm nm = (get_plugin pm nm \<noteq> None)"

text \<open>\<^verbatim>\<open>get_name\<close>: the first name whose value equals the argument, which may be \<^verbatim>\<open>None\<close>.\<close>

fun find_name :: "(string \<times> plugin option) list \<Rightarrow> plugin option \<Rightarrow> string option" where
  "find_name [] plug = None"
| "find_name ((nm, val) # rest) plug = (if plug = val then Some nm else find_name rest plug)"

definition get_name :: "('w, 'v) PluginManager \<Rightarrow> plugin option \<Rightarrow> string option" where
  "get_name pm plug = find_name (name2plugin pm) plug"

definition is_registered :: "('w, 'v) PluginManager \<Rightarrow> plugin \<Rightarrow> bool" where
  "is_registered pm plug = (Some plug \<in> snd ` set (name2plugin pm))"

definition is_blocked :: "('w, 'v) PluginManager \<Rightarrow> string \<Rightarrow> bool" where
  "is_blocked pm nm = (map_of (name2plugin pm) nm = Some None)"

text \<open>
  \<^verbatim>\<open>get_hookcallers\<close>: \<^verbatim>\<open>None\<close> for an unregistered plugin; otherwise one reference to the
  hook caller for every implementation of the plugin it holds.
\<close>

definition get_hookcallers :: "('w, 'v) PluginManager \<Rightarrow> plugin option \<Rightarrow> string list option" where
  "get_hookcallers pm plug =
     (if get_name pm plug = None then None
      else Some (concat (map (\<lambda>(nm, hc).
             map (\<lambda>_. nm) (filter (\<lambda>impl. Some (plugin impl) = plug) (get_hookimpls hc)))
           (hook pm))))"

text \<open>\<^verbatim>\<open>parse_hookimpl_opts\<close>, on the member \<^verbatim>\<open>getattr(plugin, name)\<close>.\<close>

definition empty_opts :: raw_impl_opts where
  "empty_opts =
     \<lparr> raw_tryfirst = None, raw_trylast = None, raw_hookwrapper = None,
       raw_optionalhook = None, raw_wrapper = None, raw_specname = None \<rparr>"

definition parse_hookimpl_opts :: "('w, 'v) PluginManager \<Rightarrow> member \<Rightarrow> raw_impl_opts option" where
  "parse_hookimpl_opts pm method =
     (if \<not> isroutine method then None
      else
        (case (if getattr_raises method then Some (Dict empty_opts)
               else map_of (attrs method) (project_name pm @ ''_impl'')) of
           None \<Rightarrow> None
         | Some NoneValue \<Rightarrow> None
         | Some NotDict \<Rightarrow> None
         | Some (Dict d) \<Rightarrow> Some d))"

text \<open>
  \<^verbatim>\<open>_verify_hook\<close>. The warning of \<^verbatim>\<open>warn_on_impl\<close> goes to Python's warning machinery and
  is not part of the registry; the assertion is the branch for a caller without a spec.
\<close>

definition verify_hook :: "('w, 'v) HookCaller \<Rightarrow> HookImpl \<Rightarrow> error + unit" where
  "verify_hook hc impl =
     (if is_historic hc \<and> hookwrapper impl then
        Inl (PluginValidationError (plugin impl)
               (Historic_incompatible_to_hookwrapper (plugin_name impl) (hc_name hc)))
      else
        (case hc_spec hc of
           None \<Rightarrow> Inl (AssertionError '''')
         | Some s \<Rightarrow>
             let notinspec = set (argnames impl) - set (spec_argnames s) in
             if notinspec \<noteq> {} then
               Inl (PluginValidationError (plugin impl)
                      (Arguments_not_in_hookspec (plugin_name impl) (hc_name hc) notinspec))
             else if hookwrapper impl \<and> \<not> isgeneratorfunction (hookimpl_function impl) then
               Inl (PluginValidationError (plugin impl)
                      (Not_a_generator_function (plugin_name impl) (hc_name hc)))
             else Inr ()))"

text \<open>
  The calls of \<^verbatim>\<open>_verify_hook\<close> and \<^verbatim>\<open>_add_hookimpl\<close> that an operation makes are recorded,
  in order, with the name of the hook caller.
\<close>

datatype event = Verify string HookImpl | Attach string HookImpl

text \<open>
  The body of the loop of \<^verbatim>\<open>register\<close> for one member \<^verbatim>\<open>(name, getattr(plugin, name))\<close>,
  and the loop; an exception ends the loop and leaves the registry as it is at that point.
\<close>

definition register_member ::
  "('w, 'v) PluginManager \<Rightarrow> plugin \<Rightarrow> string \<Rightarrow> string \<times> member \<Rightarrow> 'w \<Rightarrow>
   event list \<times> 'w \<times> ('w, 'v) PluginManager \<times> (error + unit)" where
  "register_member pm plug pname m w =
     (case parse_hookimpl_opts pm (snd m) of
        None \<Rightarrow> ([], w, pm, Inr ())
      | Some d \<Rightarrow>
          let opts = normalize_hookimpl_opts d;
              hookimpl = mk_HookImpl plug pname (snd m) opts;
              nm = py_or (opt_specname opts) (fst m)
          in
          (case map_of (hook pm) nm of
             None \<Rightarrow>
               ([Attach nm hookimpl], w,
                pm\<lparr>hook := AList.update nm (add_hookimpl (mk_HookCaller nm) hookimpl) (hook pm)\<rparr>,
                Inr ())
           | Some hc \<Rightarrow>
               if has_spec hc then
                 (case verify_hook hc hookimpl of
                    Inl e \<Rightarrow> ([Verify nm hookimpl], w, pm, Inl e)
                  | Inr _ \<Rightarrow>
                      (case maybe_apply_history (hookexec pm) hc hookimpl w of
                         (w1, Inl e) \<Rightarrow> ([Verify nm hookimpl], w1, pm, Inl e)
                       | (w1, Inr _) \<Rightarrow>
                           ([Verify nm hookimpl, Attach nm hookimpl], w1,
                            pm\<lparr>hook := AList.update nm (add_hookimpl hc hookimpl) (hook pm)\<rparr>,
                            Inr ())))
               else
                 ([Attach nm hookimpl], w,
                  pm\<lparr>hook := AList.update nm (add_hookimpl hc hookimpl) (hook pm)\<rparr>,
                  Inr ())))"

fun register_members ::
  "('w, 'v) PluginManager \<Rightarrow> plugin \<Rightarrow> string \<Rightarrow> (string \<times> member) list \<Rightarrow> 'w \<Rightarrow>
   event list \<times> 'w \<times> ('w, 'v) PluginManager \<times> (error + unit)" where
  "register_members pm plug pname [] w = ([], w, pm, Inr ())"
| "register_members pm plug pname (m # ms) w =
     (case register_member pm plug pname m w of
        (evs, w1, pm1, Inl e) \<Rightarrow> (evs, w1, pm1, Inl e)
      | (evs, w1, pm1, Inr _) \<Rightarrow>
          (case register_members pm1 plug pname ms w1 of
             (evs', w2, pm2, r) \<Rightarrow> (evs @ evs', w2, pm2, r)))"

text \<open>\<^verbatim>\<open>register\<close>; the result \<^verbatim>\<open>None\<close> is the answer for a blocked name.\<close>

definition register ::
  "('w, 'v) PluginManager \<Rightarrow> plugin \<Rightarrow> string option \<Rightarrow> 'w \<Rightarrow>
   event list \<times> 'w \<times> ('w, 'v) PluginManager \<times> (error + string option)" where
  "register pm plug nm w =
     (let pname = py_or nm (get_canonical_name plug) in
      case map_of (name2plugin pm) pname of
        Some None \<Rightarrow> ([], w, pm, Inr None)
      | Some (Some _) \<Rightarrow> ([], w, pm, Inl (ValueError (Plugin_name_already_registered pname)))
      | None \<Rightarrow>
          if Some plug \<in> snd ` set (name2plugin pm) then
            ([], w, pm, Inl (ValueError (Plugin_already_registered_under_a_different_name pname)))
          else
            (case register_members (pm\<lparr>name2plugin := AList.update pname (Some plug) (name2plugin pm)\<rparr>)
                    plug pname (members plug) w of
               (evs, w1, pm1, Inl e) \<Rightarrow> (evs, w1, pm1, Inl e)
             | (evs, w1, pm1, Inr _) \<Rightarrow> (evs, w1, pm1, Inr (Some pname))))"

text \<open>
  \<^verbatim>\<open>unregister\<close>. The binding is deleted under \<^verbatim>\<open>if self._name2plugin.get(name):\<close>, the
  truth value of the bound object.
\<close>

definition py_truth :: "plugin option \<Rightarrow> bool" where
  "py_truth v = (case v of None \<Rightarrow> False | Some p \<Rightarrow> truthy p)"

definition unregister ::
  "('w, 'v) PluginManager \<Rightarrow> plugin option \<Rightarrow> string option \<Rightarrow>
   ('w, 'v) PluginManager \<times> (error + plugin option)" where
  "unregister pm plug nm =
     (case (case nm of
              Some n \<Rightarrow> Inr n
            | None \<Rightarrow>
                (case plug of
                   None \<Rightarrow> Inl (AssertionError ''one of name or plugin needs to be specified'')
                 | Some _ \<Rightarrow>
                     (case get_name pm plug of
                        None \<Rightarrow> Inl (AssertionError ''plugin is not registered'')
                      | Some n \<Rightarrow> Inr n))) of
        Inl e \<Rightarrow> (pm, Inl e)
      | Inr n \<Rightarrow>
          let plug1 = (case plug of None \<Rightarrow> get_plugin pm n | Some p \<Rightarrow> Some p);
              pm1 = (case get_hookcallers pm plug1 of
                       None \<Rightarrow> pm
                     | Some hcs \<Rightarrow>
                         if hcs = [] then pm
                         else foldl (\<lambda>s k. s\<lparr>hook := AList.map_entry k (\<lambda>hc. remove_plugin hc plug1) (hook s)\<rparr>)
                                pm hcs);
              pm2 = (if py_truth (get_plugin pm1 n)
                     then pm1\<lparr>name2plugin := AList.delete n (name2plugin pm1)\<rparr>
                     else pm1)
          in (pm2, Inr plug1))"

text \<open>\<^verbatim>\<open>set_blocked\<close>: an exception of \<^verbatim>\<open>unregister\<close> would propagate before the tombstone is set.\<close>

definition set_blocked ::
  "('w, 'v) PluginManager \<Rightarrow> string \<Rightarrow> ('w, 'v) PluginManager \<times> (error + unit)" where
  "set_blocked pm nm =
     (case unregister pm None (Some nm) of
        (pm1, Inl e) \<Rightarrow> (pm1, Inl e)
      | (pm1, Inr _) \<Rightarrow> (pm1\<lparr>name2plugin := AList.update nm None (name2plugin pm1)\<rparr>, Inr ()))"

text \<open>
  \<^verbatim>\<open>add_hookspecs\<close>: \<^verbatim>\<open>parse_hookspec_opts\<close> on the member, the body of the loop for one
  member (with the list \<^verbatim>\<open>names\<close>), the loop, and the final check. The re-validation
  of the existing implementations stops at the first that fails.
\<close>

definition parse_hookspec_opts :: "('w, 'v) PluginManager \<Rightarrow> spec_member \<Rightarrow> raw_spec_opts option" where
  "parse_hookspec_opts pm f = map_of (spec_attrs f) (project_name pm @ ''_spec'')"

fun verify_all :: "string \<Rightarrow> ('w, 'v) HookCaller \<Rightarrow> HookImpl list \<Rightarrow> event list \<times> (error + unit)" where
  "verify_all nm hc [] = ([], Inr ())"
| "verify_all nm hc (impl # rest) =
     (case verify_hook hc impl of
        Inl e \<Rightarrow> ([Verify nm impl], Inl e)
      | Inr _ \<Rightarrow> (case verify_all nm hc rest of (evs, r) \<Rightarrow> (Verify nm impl # evs, r)))"

definition add_hookspec_member ::
  "('w, 'v) PluginManager \<Rightarrow> namespace \<Rightarrow> string list \<Rightarrow> string \<times> spec_member \<Rightarrow>
   event list \<times> string list \<times> ('w, 'v) PluginManager \<times> (error + unit)" where
  "add_hookspec_member pm ns names m =
     (case parse_hookspec_opts pm (snd m) of
        None \<Rightarrow> ([], names, pm, Inr ())
      | Some d \<Rightarrow>
          (case map_of (hook pm) (fst m) of
             None \<Rightarrow>
               ([], names @ [fst m],
                pm\<lparr>hook := AList.update (fst m)
                              (set_specification (mk_HookCaller (fst m)) ns (snd m) d) (hook pm)\<rparr>,
                Inr ())
           | Some hc \<Rightarrow>
               let hc1 = set_specification hc ns (snd m) d;
                   pm1 = pm\<lparr>hook := AList.update (fst m) hc1 (hook pm)\<rparr>
               in
               (case verify_all (fst m) hc1 (get_hookimpls hc1) of
                  (evs, Inl e) \<Rightarrow> (evs, names, pm1, Inl e)
                | (evs, Inr _) \<Rightarrow> (evs, names @ [fst m], pm1, Inr ()))))"

fun add_hookspec_members ::
  "('w, 'v) PluginManager \<Rightarrow> namespace \<Rightarrow> string list \<Rightarrow> (string \<times> spec_member) list \<Rightarrow>
   event list \<times> string list \<times> ('w, 'v) PluginManager \<times> (error + unit)" where
  "add_hookspec_members pm ns names [] = ([], names, pm, Inr ())"
| "add_hookspec_members pm ns names (m # ms) =
     (case add_hookspec_member pm ns names m of
        (evs, names1, pm1, Inl e) \<Rightarrow> (evs, names1, pm1, Inl e)
      | (evs, names1, pm1, Inr _) \<Rightarrow>
          (case add_hookspec_members pm1 ns names1 ms of
             (evs', names2, pm2, r) \<Rightarrow> (evs @ evs', names2, pm2, r)))"

definition add_hookspecs ::
  "('w, 'v) PluginManager \<Rightarrow> namespace \<Rightarrow> event list \<times> ('w, 'v) PluginManager \<times> (error + unit)" where
  "add_hookspecs pm ns =
     (case add_hookspec_members pm ns [] (ns_members ns) of
        (evs, names, pm1, Inl e) \<Rightarrow> (evs, pm1, Inl e)
      | (evs, names, pm1, Inr _) \<Rightarrow>
          if names = [] then (evs, pm1, Inl (ValueError Did_not_find_any_hooks))
          else (evs, pm1, Inr ()))"

text \<open>
  \<^verbatim>\<open>check_pending\<close>: the loop over the implementations of one caller and the loop over
  \<^verbatim>\<open>self.hook.__dict__\<close>; \<^verbatim>\<open>name[0]\<close> of an empty name raises.
\<close>

fun check_impls :: "string \<Rightarrow> HookImpl list \<Rightarrow> error + unit" where
  "check_impls nm [] = Inr ()"
| "check_impls nm (impl # rest) =
     (if \<not> optionalhook impl then Inl (PluginValidationError (plugin impl) (Unknown_hook nm))
      else check_impls nm rest)"

fun check_hooks :: "(string \<times> ('w, 'v) HookCaller) list \<Rightarrow> error + unit" where
  "check_hooks [] = Inr ()"
| "check_hooks ((nm, hc) # rest) =
     (case nm of
        [] \<Rightarrow> Inl IndexError
      | c # _ \<Rightarrow>
          if c \<noteq> CHR ''_'' then
            (if \<not> has_spec hc then
               (case check_impls nm (get_hookimpls hc) of
                  Inl e \<Rightarrow> Inl e
                | Inr _ \<Rightarrow> check_hooks rest)
             else check_hooks rest)
          else check_hooks rest)"


definition check_pending :: "('w, 'v) PluginManager \<Rightarrow> error + unit" where
  "check_pending pm = check_hooks (hook pm)"

text \<open>
  \<^verbatim>\<open>subset_hook_caller\<close> returns the caller itself or a \<^verbatim>\<open>_SubsetHookCaller\<close> over it.
  \<^verbatim>\<open>hasattr(plug, name)\<close> asks for a member of that name.
\<close>

datatype caller = Orig string | Subset string "plugin set"

definition hasattr :: "plugin \<Rightarrow> string \<Rightarrow> bool" where
  "hasattr plug nm = (nm \<in> fst ` set (members plug))"

definition subset_hook_caller ::
  "('w, 'v) PluginManager \<Rightarrow> string \<Rightarrow> plugin list \<Rightarrow> error + caller" where
  "subset_hook_caller pm nm remove_plugins =
     (case map_of (hook pm) nm of
        None \<Rightarrow> Inl (AttributeError nm)
      | Some orig \<Rightarrow>
          let plugins_to_remove = {plug \<in> set remove_plugins. hasattr plug nm} in
          if plugins_to_remove \<noteq> {} then Inr (Subset nm plugins_to_remove)
          else Inr (Orig nm))"

text \<open>
  Modelled from the spec: the implementations a caller's invocation hands to the engine,
  \<^verbatim>\<open>_HookCaller.__call__\<close> and \<^verbatim>\<open>_SubsetHookCaller\<close> of \<^verbatim>\<open>_hooks.py\<close> (section 4.6: the
  view "filters the owning HookCaller's current implementation list to exclude any
  implementation whose plugin is in the excluded set, then delegates to the same engine").
\<close>

definition caller_hookimpls :: "('w, 'v) PluginManager \<Rightarrow> caller \<Rightarrow> HookImpl list" where
  "caller_hookimpls pm c =
     (case c of
        Orig nm \<Rightarrow> (case map_of (hook pm) nm of None \<Rightarrow> [] | Some hc \<Rightarrow> get_hookimpls hc)
      | Subset nm removed \<Rightarrow>
          (case map_of (hook pm) nm of
             None \<Rightarrow> []
           | Some hc \<Rightarrow> filter (\<lambda>impl. plugin impl \<notin> removed) (get_hookimpls hc)))"

definition call_hook ::
  "('w, 'v) PluginManager \<Rightarrow> caller \<Rightarrow> 'v kwargs \<Rightarrow> 'w \<Rightarrow> 'w \<times> (error + 'v retval)" where
  "call_hook pm c kw w =
     (let nm = (case c of Orig k \<Rightarrow> k | Subset k _ \<Rightarrow> k);
          fr = (case map_of (hook pm) nm of
                  None \<Rightarrow> False
                | Some hc \<Rightarrow> (case hc_spec hc of None \<Rightarrow> False | Some s \<Rightarrow> firstresult s))
      in hookexec pm nm (caller_hookimpls pm c) kw fr w)"

text \<open>
  Modelled from the spec: \<^verbatim>\<open>_Result\<close> of \<^verbatim>\<open>_result.py\<close> (section 2: "either a produced
  value or a captured failure"; \<^verbatim>\<open>get_result\<close> raises the failure or returns the value,
  \<^verbatim>\<open>force_result\<close> installs a value).
\<close>

datatype 'a Result = Value 'a | Excinfo error

definition capture :: "error + 'a \<Rightarrow> 'a Result" where
  "capture r = (case r of Inl e \<Rightarrow> Excinfo e | Inr v \<Rightarrow> Value v)"

definition from_call :: "('w \<Rightarrow> 'w \<times> (error + 'a)) \<Rightarrow> 'w \<Rightarrow> 'w \<times> 'a Result" where
  "from_call func w = (case func w of (w1, r) \<Rightarrow> (w1, capture r))"

definition get_result :: "'a Result \<Rightarrow> error + 'a" where
  "get_result outcome = (case outcome of Value v \<Rightarrow> Inr v | Excinfo e \<Rightarrow> Inl e)"

definition force_result :: "'a Result \<Rightarrow> 'a \<Rightarrow> 'a Result" where
  "force_result outcome v = Value v"

text \<open>
  \<^verbatim>\<open>add_hookcall_monitoring\<close>. The callback \<^verbatim>\<open>after\<close> receives the outcome object and may
  change it; its normal return gives the object as it left it.
\<close>

type_synonym ('w, 'v) before_trace =
  "string \<Rightarrow> HookImpl list \<Rightarrow> 'v kwargs \<Rightarrow> 'w \<Rightarrow> 'w \<times> (error + unit)"

type_synonym ('w, 'v) after_trace =
  "'v retval Result \<Rightarrow> string \<Rightarrow> HookImpl list \<Rightarrow> 'v kwargs \<Rightarrow> 'w \<Rightarrow>
   'w \<times> (error + 'v retval Result)"

definition traced_hookexec ::
  "('w, 'v) before_trace \<Rightarrow> ('w, 'v) after_trace \<Rightarrow> ('w, 'v) hookexec \<Rightarrow> ('w, 'v) hookexec" where
  "traced_hookexec before after oldcall hook_name hook_impls caller_kwargs fr w =
     (case before hook_name hook_impls caller_kwargs w of
        (w1, Inl e) \<Rightarrow> (w1, Inl e)
      | (w1, Inr _) \<Rightarrow>
          (case from_call (oldcall hook_name hook_impls caller_kwargs fr) w1 of
             (w2, outcome) \<Rightarrow>
               (case after outcome hook_name hook_impls caller_kwargs w2 of
                  (w3, Inl e) \<Rightarrow> (w3, Inl e)
                | (w3, Inr outcome1) \<Rightarrow> (w3, get_result outcome1))))"

definition add_hookcall_monitoring ::
  "('w, 'v) PluginManager \<Rightarrow> ('w, 'v) before_trace \<Rightarrow> ('w, 'v) after_trace \<Rightarrow>
   ('w, 'v) PluginManager \<times> (('w, 'v) PluginManager \<Rightarrow> ('w, 'v) PluginManager)" where
  "add_hookcall_monitoring pm before after =
     (let oldcall = inner_hookexec pm in
      (pm\<lparr>inner_hookexec := traced_hookexec before after oldcall\<rparr>,
       \<lambda>s. s\<lparr>inner_hookexec := oldcall\<rparr>))"

section \<open>Predicates for the properties\<close>

text \<open>The implementations the caller of a name holds, and whether one is among them.\<close>

definition hookimpls_of :: "('w, 'v) PluginManager \<Rightarrow> string \<Rightarrow> HookImpl list" where
  "hookimpls_of pm nm = (case map_of (hook pm) nm of None \<Rightarrow> [] | Some hc \<Rightarrow> get_hookimpls hc)"

definition attached :: "('w, 'v) PluginManager \<Rightarrow> string \<Rightarrow> HookImpl \<Rightarrow> bool" where
  "attached pm nm impl = (impl \<in> set (hookimpls_of pm nm))"




section \<open>Example objects\<close>

text \<open>
  A manager of the project \<^verbatim>\<open>eg\<close> over a trivial world, functions marked as
  implementations of that project, and a few plugins.
\<close>

definition eg_engine :: "(unit, unit) hookexec" where
  "eg_engine hook_name methods kw fr w = (w, Inr (Many []))"

definition eg_manager :: "(unit, unit) PluginManager" where
  "eg_manager = init ''eg'' eg_engine"

definition eg_function :: "raw_impl_opts \<Rightarrow> string list \<Rightarrow> member" where
  "eg_function d args =
     \<lparr> isroutine = True, getattr_raises = False, attrs = [(''eg_impl'', Dict d)],
       varnames = (args, []), isgeneratorfunction = False \<rparr>"

definition plugin_a :: plugin where
  "plugin_a =
     \<lparr> ident = 1, dunder_name = Some ''a'', truthy = True,
       members = [(''myhook'', eg_function empty_opts [''x''])] \<rparr>"

text \<open>The manager after \<^verbatim>\<open>register(plugin_a)\<close> and \<^verbatim>\<open>set_blocked("b")\<close>.\<close>

definition manager_a_b :: "(unit, unit) PluginManager" where
  "manager_a_b =
     (case register eg_manager plugin_a None () of
        (evs, w, pm, r) \<Rightarrow> fst (set_blocked pm ''b''))"

text \<open>A caller \<^verbatim>\<open>myhook(x)\<close> with a bound spec, and an implementation \<^verbatim>\<open>myhook(x, y)\<close>.\<close>

definition eg_spec_opts :: raw_spec_opts where
  "eg_spec_opts = \<lparr> raw_firstresult = None, raw_historic = None, raw_warn_on_impl = None \<rparr>"

definition eg_spec_function :: spec_member where
  "eg_spec_function = \<lparr> spec_attrs = [(''eg_spec'', eg_spec_opts)], spec_varnames = ([''x''], []) \<rparr>"

definition eg_namespace :: namespace where
  "eg_namespace = \<lparr> ns_ident = 7, ns_members = [(''myhook'', eg_spec_function)] \<rparr>"

definition eg_spec :: HookSpec where
  "eg_spec = mk_HookSpec eg_namespace ''myhook'' eg_spec_function eg_spec_opts"

definition eg_caller :: "(unit, unit) HookCaller" where
  "eg_caller =
     \<lparr> hc_name = ''myhook'', hc_spec = Some eg_spec, hc_hookimpls = [], hc_call_history = [] \<rparr>"

definition impl_xy :: HookImpl where
  "impl_xy =
     mk_HookImpl plugin_a ''a'' (eg_function empty_opts [''x'', ''y''])
       (normalize_hookimpl_opts empty_opts)"

text \<open>A plugin whose only implementation has a name with a leading underscore.\<close>

definition plugin_u :: plugin where
  "plugin_u =
     \<lparr> ident = 2, dunder_name = Some ''u'', truthy = True,
       members = [(''_private'', eg_function empty_opts [])] \<rparr>"

definition impl_u :: HookImpl where
  "impl_u = mk_HookImpl plugin_u ''u'' (eg_function empty_opts []) (normalize_hookimpl_opts empty_opts)"

definition caller_u :: "(unit, unit) HookCaller" where
  "caller_u = \<lparr> hc_name = ''_private'', hc_spec = None, hc_hookimpls = [impl_u], hc_call_history = [] \<rparr>"

definition manager_u :: "(unit, unit) PluginManager" where
  "manager_u = (case register eg_manager plugin_u None () of (evs, w, pm, r) \<Rightarrow> pm)"

text \<open>
  A plugin whose function \<^verbatim>\<open>impl_for_bar\<close> implements the hook \<^verbatim>\<open>bar\<close> through the
  option \<^verbatim>\<open>specname\<close>; the plugin has no member named \<^verbatim>\<open>bar\<close>.
\<close>

definition opts_bar :: raw_impl_opts where
  "opts_bar = empty_opts\<lparr>raw_specname := Some ''bar''\<rparr>"

definition plugin_s :: plugin where
  "plugin_s =
     \<lparr> ident = 3, dunder_name = Some ''s'', truthy = True,
       members = [(''impl_for_bar'', eg_function opts_bar [])] \<rparr>"

definition impl_s :: HookImpl where
  "impl_s = mk_HookImpl plugin_s ''s'' (eg_function opts_bar []) (normalize_hookimpl_opts opts_bar)"

definition manager_s :: "(unit, unit) PluginManager" where
  "manager_s = (case register eg_manager plugin_s None () of (evs, w, pm, r) \<Rightarrow> pm)"

text \<open>An engine and tracing callbacks that write to a log, the world of these examples.\<close>

definition log_engine :: "(string list, nat) hookexec" where
  "log_engine hook_name methods kw fr w = (w @ [''engine''], Inr (Many [1]))"

definition log_before :: "string \<Rightarrow> (string list, nat) before_trace" where
  "log_before tag hook_name methods kw w = (w @ [''before '' @ tag], Inr ())"

definition log_after :: "string \<Rightarrow> (string list, nat) after_trace" where
  "log_after tag outcome hook_name methods kw w = (w @ [''after '' @ tag], Inr outcome)"

definition log_manager :: "(string list, nat) PluginManager" where
  "log_manager = init ''eg'' log_engine"

text \<open>What validation looks at in a caller: its name and its spec.\<close>

definition contract_of :: "('w, 'v) PluginManager \<Rightarrow> string \<Rightarrow> (string \<times> HookSpec option) option" where
  "contract_of pm k = map_option (\<lambda>hc. (hc_name hc, hc_spec hc)) (map_of (hook pm) k)"

text \<open>The manager after \<^verbatim>\<open>add_hookspecs(eg_namespace)\<close>: the caller \<^verbatim>\<open>myhook(x)\<close> has a spec.\<close>

definition manager_spec :: "(unit, unit) PluginManager" where
  "manager_spec = (case add_hookspecs eg_manager eg_namespace of (evs, pm, r) \<Rightarrow> pm)"

definition impl_a :: HookImpl where
  "impl_a =
     mk_HookImpl plugin_a ''a'' (eg_function empty_opts [''x'']) (normalize_hookimpl_opts empty_opts)"

text \<open>
  A plugin with two implementations: \<^verbatim>\<open>first()\<close>, for a hook nobody has specified, and
  \<^verbatim>\<open>myhook(x, y)\<close>, which does not fit the spec \<^verbatim>\<open>myhook(x)\<close>.
\<close>

definition plugin_bad :: plugin where
  "plugin_bad =
     \<lparr> ident = 4, dunder_name = Some ''bad'', truthy = True,
       members = [(''first'', eg_function empty_opts []),
                  (''myhook'', eg_function empty_opts [''x'', ''y''])] \<rparr>"

definition impl_first :: HookImpl where
  "impl_first =
     mk_HookImpl plugin_bad ''bad'' (eg_function empty_opts []) (normalize_hookimpl_opts empty_opts)"

definition impl_bad :: HookImpl where
  "impl_bad =
     mk_HookImpl plugin_bad ''bad'' (eg_function empty_opts [''x'', ''y''])
       (normalize_hookimpl_opts empty_opts)"

definition caller_first :: "(unit, unit) HookCaller" where
  "caller_first =
     \<lparr> hc_name = ''first'', hc_spec = None, hc_hookimpls = [impl_first], hc_call_history = [] \<rparr>"

text \<open>A plugin object whose truth value is false, as an empty container is.\<close>

definition plugin_f :: plugin where
  "plugin_f = \<lparr> ident = 5, dunder_name = Some ''f'', truthy = False, members = [] \<rparr>"

section \<open>Properties\<close>

subsection \<open>Evaluation of the example objects\<close>

lemma plugin_a_sel:
  "dunder_name plugin_a = Some ''a''" "truthy plugin_a" "ident plugin_a = 1"
  "members plugin_a = [(''myhook'', eg_function empty_opts [''x''])]"
  by (simp_all add: plugin_a_def)

lemma eg_function_sel:
  "isroutine (eg_function d args)" "\<not> getattr_raises (eg_function d args)"
  "attrs (eg_function d args) = [(''eg_impl'', Dict d)]"
  "varnames (eg_function d args) = (args, [])"
  "\<not> isgeneratorfunction (eg_function d args)"
  by (simp_all add: eg_function_def)

lemma eg_manager_sel:
  "project_name eg_manager = ''eg''" "name2plugin eg_manager = []" "hook eg_manager = []"
  by (simp_all add: eg_manager_def init_def)

lemmas register_defs =
  register_def Let_def py_or_def get_canonical_name_def register_member_def
  parse_hookimpl_opts_def add_hookimpl_def mk_HookCaller_def normalize_hookimpl_opts_def
  empty_opts_def

lemmas unregister_defs =
  unregister_def Let_def get_plugin_def get_hookcallers_def get_name_def py_truth_def
  get_hookimpls_def remove_plugin_def

lemma manager_a_b_eq:
  "manager_a_b =
     eg_manager\<lparr>name2plugin := [(''a'', Some plugin_a), (''b'', None)],
       hook := [(''myhook'', \<lparr>hc_name = ''myhook'', hc_spec = None,
          hc_hookimpls = [mk_HookImpl plugin_a ''a'' (eg_function empty_opts [''x''])
                            (normalize_hookimpl_opts empty_opts)],
          hc_call_history = []\<rparr>)]\<rparr>"
  by (simp add: manager_a_b_def plugin_a_sel eg_function_sel eg_manager_sel register_defs
      set_blocked_def unregister_defs)

subsection \<open>Duplicate registration\<close>

text \<open>
  C1, as the code has it. When the resolved name is bound to a live plugin, \<^verbatim>\<open>register\<close>
  raises the \<^verbatim>\<open>ValueError\<close> "Plugin name already registered" (DuplicateNameError). When
  the resolved name is not a key of the mapping and the plugin is a value of it,
  \<^verbatim>\<open>register\<close> raises the \<^verbatim>\<open>ValueError\<close> "Plugin already registered under a different
  name" (DuplicatePluginError). In both cases the world and the registry are unchanged and
  nothing was validated or attached.
\<close>

theorem register_duplicate_errors:
  "(get_plugin pm (py_or nm (get_canonical_name plug)) \<noteq> None \<longrightarrow>
      register pm plug nm w =
        ([], w, pm,
         Inl (ValueError (Plugin_name_already_registered (py_or nm (get_canonical_name plug)))))) \<and>
   (map_of (name2plugin pm) (py_or nm (get_canonical_name plug)) = None \<and> is_registered pm plug \<longrightarrow>
      register pm plug nm w =
        ([], w, pm,
         Inl (ValueError (Plugin_already_registered_under_a_different_name
                            (py_or nm (get_canonical_name plug))))))"
  by (auto simp: register_def get_plugin_def is_registered_def Let_def split: option.splits)

theorem register_duplicate_errors_witness:
  "get_plugin manager_a_b (py_or None (get_canonical_name plugin_a)) \<noteq> None \<and>
   register manager_a_b plugin_a None () =
     ([], (), manager_a_b, Inl (ValueError (Plugin_name_already_registered ''a''))) \<and>
   map_of (name2plugin manager_a_b) (py_or (Some ''c'') (get_canonical_name plugin_a)) = None \<and>
   is_registered manager_a_b plugin_a \<and>
   register manager_a_b plugin_a (Some ''c'') () =
     ([], (), manager_a_b,
      Inl (ValueError (Plugin_already_registered_under_a_different_name ''c'')))"
proof -
  have name_bound: "get_plugin manager_a_b (py_or None (get_canonical_name plugin_a)) \<noteq> None"
    by (simp add: manager_a_b_eq get_plugin_def py_or_def get_canonical_name_def plugin_a_sel)
  have fresh: "map_of (name2plugin manager_a_b) (py_or (Some ''c'') (get_canonical_name plugin_a)) = None"
    by (simp add: manager_a_b_eq py_or_def)
  have known: "is_registered manager_a_b plugin_a"
    by (simp add: manager_a_b_eq is_registered_def)
  show ?thesis
    using register_duplicate_errors [of manager_a_b None plugin_a "()"]
      register_duplicate_errors [of manager_a_b "Some ''c''" plugin_a "()"]
      name_bound fresh known
    by (simp add: py_or_def get_canonical_name_def plugin_a_sel)
qed

text \<open>
  The statement of the specification fails where the resolved name is blocked: \<^verbatim>\<open>plugin_a\<close> is registered
  as \<^verbatim>\<open>a\<close>, the name \<^verbatim>\<open>b\<close> is blocked, and \<^verbatim>\<open>register(plugin_a, "b")\<close> returns \<^verbatim>\<open>None\<close>
  instead of raising.
\<close>

theorem register_known_plugin_blocked_name:
  "is_registered manager_a_b plugin_a \<and>
   get_name manager_a_b (Some plugin_a) = Some ''a'' \<and>
   register manager_a_b plugin_a (Some ''b'') () = ([], (), manager_a_b, Inr None)"
  by (simp add: manager_a_b_eq is_registered_def get_name_def register_def py_or_def)

subsection \<open>Validation of one implementation\<close>

text \<open>
  C3. For a caller with a bound spec, \<^verbatim>\<open>_verify_hook\<close> fails exactly when (a) the spec is
  historic and the implementation is a hookwrapper, or (b) the implementation declares an
  argument name that the spec does not, or (c) the implementation is a hookwrapper and its
  function is not a generator function. Every failure is a \<^verbatim>\<open>PluginValidationError\<close> for
  the implementation's plugin; the failure for (b) carries the offending names. The function
  returns no registry, so it changes none.
\<close>

theorem verify_hook_fails_exactly:
  assumes "hc_spec hc = Some s"
  shows
    "(verify_hook hc impl \<noteq> Inr () \<longleftrightarrow>
        (historic s \<and> hookwrapper impl) \<or>
        \<not> set (argnames impl) \<subseteq> set (spec_argnames s) \<or>
        (hookwrapper impl \<and> \<not> isgeneratorfunction (hookimpl_function impl))) \<and>
     (verify_hook hc impl = Inr () \<or>
        (\<exists>msg. verify_hook hc impl = Inl (PluginValidationError (plugin impl) msg))) \<and>
     (\<not> (historic s \<and> hookwrapper impl) \<and> \<not> set (argnames impl) \<subseteq> set (spec_argnames s) \<longrightarrow>
        verify_hook hc impl =
          Inl (PluginValidationError (plugin impl)
                 (Arguments_not_in_hookspec (plugin_name impl) (hc_name hc)
                    (set (argnames impl) - set (spec_argnames s)))))"
  using assms by (auto simp: verify_hook_def is_historic_def Let_def)

theorem verify_hook_fails_exactly_witness:
  "hc_spec eg_caller = Some eg_spec \<and>
   verify_hook eg_caller impl_xy \<noteq> Inr () \<and>
   \<not> set (argnames impl_xy) \<subseteq> set (spec_argnames eg_spec) \<and>
   verify_hook eg_caller impl_xy =
     Inl (PluginValidationError plugin_a (Arguments_not_in_hookspec ''a'' ''myhook'' {''y''}))"
proof -
  have bound: "hc_spec eg_caller = Some eg_spec"
    by (simp add: eg_caller_def)
  have args: "set (argnames impl_xy) - set (spec_argnames eg_spec) = {''y''}"
    by (auto simp: impl_xy_def mk_HookImpl_def eg_function_sel eg_spec_def mk_HookSpec_def
        eg_spec_function_def)
  have names: "plugin impl_xy = plugin_a" "plugin_name impl_xy = ''a''" "\<not> hookwrapper impl_xy"
      "hc_name eg_caller = ''myhook''"
    by (simp_all add: impl_xy_def mk_HookImpl_def eg_caller_def normalize_hookimpl_opts_def
        empty_opts_def)
  from args have offending: "\<not> set (argnames impl_xy) \<subseteq> set (spec_argnames eg_spec)"
    by blast
  show ?thesis
    using verify_hook_fails_exactly [OF bound, of impl_xy] bound args names offending
    by simp
qed

subsection \<open>Unregistering what is not registered\<close>

lemma get_hookcallers_None: "get_hookcallers pm None = None \<or> get_hookcallers pm None = Some []"
  by (auto simp: get_hookcallers_def split: prod.splits)

text \<open>
  C8, as the code has it. \<^verbatim>\<open>unregister(plugin=P)\<close> for a plugin that is not registered
  fails with the assertion "plugin is not registered", and \<^verbatim>\<open>unregister()\<close> with neither
  argument fails with the assertion "one of name or plugin needs to be specified"; the
  registry is unchanged. \<^verbatim>\<open>unregister(name=n)\<close> for a name that is bound to no live plugin
  does not fail: it returns \<^verbatim>\<open>None\<close> and leaves the registry unchanged.
\<close>

theorem unregister_not_registered:
  "(get_name pm (Some p) = None \<longrightarrow>
      unregister pm (Some p) None = (pm, Inl (AssertionError ''plugin is not registered''))) \<and>
   unregister pm None None =
     (pm, Inl (AssertionError ''one of name or plugin needs to be specified'')) \<and>
   (get_plugin pm n = None \<longrightarrow> unregister pm None (Some n) = (pm, Inr None))"
  using get_hookcallers_None [of pm]
  by (auto simp: unregister_def Let_def py_truth_def)

theorem unregister_not_registered_witness:
  "get_name eg_manager (Some plugin_a) = None \<and>
   unregister eg_manager (Some plugin_a) None =
     (eg_manager, Inl (AssertionError ''plugin is not registered'')) \<and>
   get_plugin eg_manager ''ghost'' = None \<and>
   unregister eg_manager None (Some ''ghost'') = (eg_manager, Inr None)"
proof -
  have unknown: "get_name eg_manager (Some plugin_a) = None"
    by (simp add: get_name_def eg_manager_sel)
  have unbound: "get_plugin eg_manager ''ghost'' = None"
    by (simp add: get_plugin_def eg_manager_sel)
  show ?thesis
    using unregister_not_registered [of eg_manager plugin_a "''ghost''"] unknown unbound
    by simp
qed

text \<open>
  The statement of the specification fails for an unknown name: on the empty manager,
  \<^verbatim>\<open>unregister(name="ghost")\<close> returns \<^verbatim>\<open>None\<close> and raises nothing.
\<close>

theorem unregister_unknown_name_succeeds:
  "get_plugin eg_manager ''ghost'' = None \<and> \<not> is_blocked eg_manager ''ghost'' \<and>
   unregister eg_manager None (Some ''ghost'') = (eg_manager, Inr None)"
  by (simp add: get_plugin_def is_blocked_def eg_manager_sel unregister_defs)

subsection \<open>Pending implementations\<close>

lemma check_impls_iff:
  "check_impls nm impls = Inr () \<longleftrightarrow> (\<forall>impl \<in> set impls. optionalhook impl)"
  by (induction impls) auto

lemma check_impls_error:
  "check_impls nm impls = Inr () \<or>
   (\<exists>p. check_impls nm impls = Inl (PluginValidationError p (Unknown_hook nm)))"
  by (induction impls) auto

lemma check_hooks_iff:
  "[] \<notin> fst ` set hs \<Longrightarrow>
   (check_hooks hs \<noteq> Inr () \<longleftrightarrow>
     (\<exists>(nm, hc) \<in> set hs. hd nm \<noteq> CHR ''_'' \<and> \<not> has_spec hc \<and>
        (\<exists>impl \<in> set (get_hookimpls hc). \<not> optionalhook impl)))"
proof (induction hs)
  case Nil
  then show ?case by simp
next
  case (Cons a hs)
  obtain nm hc where a: "a = (nm, hc)" by (cases a)
  with Cons.prems obtain c cs where nm: "nm = c # cs" by (cases nm) auto
  from Cons have IH: "check_hooks hs \<noteq> Inr () \<longleftrightarrow>
     (\<exists>(nm, hc) \<in> set hs. hd nm \<noteq> CHR ''_'' \<and> \<not> has_spec hc \<and>
        (\<exists>impl \<in> set (get_hookimpls hc). \<not> optionalhook impl))" by auto
  show ?case
    using IH check_impls_iff [of nm "get_hookimpls hc"]
    by (auto simp: a nm split: sum.splits)
qed

lemma check_hooks_error:
  "[] \<notin> fst ` set hs \<Longrightarrow>
   check_hooks hs = Inr () \<or>
   (\<exists>p nm. check_hooks hs = Inl (PluginValidationError p (Unknown_hook nm)))"
proof (induction hs)
  case Nil
  then show ?case by simp
next
  case (Cons a hs)
  obtain nm hc where a: "a = (nm, hc)" by (cases a)
  with Cons.prems obtain c cs where nm: "nm = c # cs" by (cases nm) auto
  show ?case
    using Cons check_impls_error [of nm "get_hookimpls hc"]
    by (auto simp: a nm split: sum.splits)
qed

text \<open>
  C9, as the code has it. In a registry whose hook names are not empty, \<^verbatim>\<open>check_pending\<close>
  raises exactly when some hook caller whose name does not begin with an underscore has no
  bound spec and holds an implementation that is not optional; what it raises is the
  \<^verbatim>\<open>PluginValidationError\<close> "unknown hook" (UnknownHookError). Callers whose name begins
  with an underscore are skipped. The function returns no registry, so it changes none.
\<close>

theorem check_pending_raises_exactly:
  assumes "[] \<notin> fst ` set (hook pm)"
  shows
    "(check_pending pm \<noteq> Inr () \<longleftrightarrow>
        (\<exists>(nm, hc) \<in> set (hook pm). hd nm \<noteq> CHR ''_'' \<and> \<not> has_spec hc \<and>
           (\<exists>impl \<in> set (get_hookimpls hc). \<not> optionalhook impl))) \<and>
     (check_pending pm = Inr () \<or>
        (\<exists>p nm. check_pending pm = Inl (PluginValidationError p (Unknown_hook nm))))"
  using check_hooks_iff [OF assms] check_hooks_error [OF assms]
  by (simp add: check_pending_def)

theorem check_pending_raises_exactly_witness:
  "[] \<notin> fst ` set (hook manager_a_b) \<and> check_pending manager_a_b \<noteq> Inr () \<and>
   check_pending manager_a_b = Inl (PluginValidationError plugin_a (Unknown_hook ''myhook''))"
proof -
  have names: "[] \<notin> fst ` set (hook manager_a_b)"
    by (simp add: manager_a_b_eq)
  have raised: "check_pending manager_a_b = Inl (PluginValidationError plugin_a (Unknown_hook ''myhook''))"
    by (simp add: manager_a_b_eq check_pending_def has_spec_def get_hookimpls_def mk_HookImpl_def
        normalize_hookimpl_opts_def empty_opts_def)
  show ?thesis
    using check_pending_raises_exactly [OF names] names raised
    by simp
qed

lemma manager_u_eq:
  "manager_u = eg_manager\<lparr>name2plugin := [(''u'', Some plugin_u)], hook := [(''_private'', caller_u)]\<rparr>"
  by (simp add: manager_u_def plugin_u_def eg_function_sel eg_manager_sel register_defs
      caller_u_def impl_u_def)

text \<open>
  The statement of the specification fails for a hook whose name begins with an underscore: after
  \<^verbatim>\<open>register(plugin_u)\<close> the caller \<^verbatim>\<open>_private\<close> has no spec and holds an implementation
  that is not optional, and \<^verbatim>\<open>check_pending\<close> returns.
\<close>

theorem check_pending_skips_underscore:
  "map_of (hook manager_u) ''_private'' = Some caller_u \<and> \<not> has_spec caller_u \<and>
   get_hookimpls caller_u = [impl_u] \<and> \<not> optionalhook impl_u \<and>
   check_pending manager_u = Inr ()"
  by (simp add: manager_u_eq check_pending_def has_spec_def get_hookimpls_def caller_u_def
      impl_u_def mk_HookImpl_def normalize_hookimpl_opts_def empty_opts_def)

subsection \<open>Subset hook callers\<close>

lemma manager_s_eq:
  "manager_s =
     eg_manager\<lparr>name2plugin := [(''s'', Some plugin_s)],
       hook := [(''bar'', \<lparr>hc_name = ''bar'', hc_spec = None, hc_hookimpls = [impl_s],
                           hc_call_history = []\<rparr>)]\<rparr>"
  by (simp add: manager_s_def plugin_s_def eg_function_sel eg_manager_sel register_def Let_def
      py_or_def get_canonical_name_def register_member_def parse_hookimpl_opts_def
      add_hookimpl_def mk_HookCaller_def normalize_hookimpl_opts_def opts_bar_def empty_opts_def
      impl_s_def)

text \<open>
  C5 at a failing input. \<^verbatim>\<open>plugin_s\<close> implements the hook \<^verbatim>\<open>bar\<close> through \<^verbatim>\<open>specname\<close>
  and has no member named \<^verbatim>\<open>bar\<close>. \<^verbatim>\<open>subset_hook_caller("bar", [plugin_s])\<close> drops the
  plugin from the set to remove (\<^verbatim>\<open>hasattr(plug, name)\<close> is false) and returns the caller
  itself, whose invocation uses the implementation of \<^verbatim>\<open>plugin_s\<close>.
\<close>

theorem subset_hook_caller_keeps_specname_impl:
  "subset_hook_caller manager_s ''bar'' [plugin_s] = Inr (Orig ''bar'') \<and>
   caller_hookimpls manager_s (Orig ''bar'') = [impl_s] \<and>
   plugin impl_s = plugin_s"
  by (simp add: manager_s_eq subset_hook_caller_def hasattr_def caller_hookimpls_def
      get_hookimpls_def plugin_s_def impl_s_def mk_HookImpl_def)

text \<open>
  Where every plugin to remove that has an implementation in the caller also has a member
  of the hook's name, the returned caller uses exactly the implementations of the other
  plugins.
\<close>

lemma subset_hook_caller_filters:
  assumes "map_of (hook pm) nm = Some hc"
    and "\<forall>impl \<in> set (get_hookimpls hc). plugin impl \<in> set rs \<longrightarrow> hasattr (plugin impl) nm"
    and "subset_hook_caller pm nm rs = Inr c"
  shows "caller_hookimpls pm c = filter (\<lambda>impl. plugin impl \<notin> set rs) (get_hookimpls hc)"
proof (cases "{plug \<in> set rs. hasattr plug nm} = {}")
  case True
  with assms(1,3) have c: "c = Orig nm"
    by (simp add: subset_hook_caller_def)
  from True assms(2) have "\<forall>impl \<in> set (get_hookimpls hc). plugin impl \<notin> set rs"
    by blast
  then have "filter (\<lambda>impl. plugin impl \<notin> set rs) (get_hookimpls hc) = get_hookimpls hc"
    by (simp add: filter_id_conv)
  with assms(1) c show ?thesis
    by (simp add: caller_hookimpls_def)
next
  case False
  with assms(1,3) have c: "c = Subset nm {plug \<in> set rs. hasattr plug nm}"
    by (simp add: subset_hook_caller_def)
  have "filter (\<lambda>impl. plugin impl \<notin> {plug \<in> set rs. hasattr plug nm}) (get_hookimpls hc) =
        filter (\<lambda>impl. plugin impl \<notin> set rs) (get_hookimpls hc)"
    using assms(2) by (intro filter_cong) auto
  with assms(1) c show ?thesis
    by (simp add: caller_hookimpls_def)
qed

subsection \<open>Call monitoring\<close>

text \<open>
  C7. After \<^verbatim>\<open>add_hookcall_monitoring(before, after)\<close>, a hook call first runs \<^verbatim>\<open>before\<close>,
  then the engine that was installed, whose value or exception is captured as the outcome,
  then \<^verbatim>\<open>after\<close> on that outcome, and returns the result of the outcome as \<^verbatim>\<open>after\<close> left
  it (raising the captured exception if it holds one). The undo callback sets the engine of
  whatever registry it is applied to back to the engine installed before the call, and
  applied to the registry right after the installation it gives the original registry.
  A second installation wraps the first: its \<^verbatim>\<open>before\<close> runs first and its \<^verbatim>\<open>after\<close> last.
\<close>

theorem add_hookcall_monitoring_wraps:
  "(before nm impls kw w = (w1, Inr ()) \<and>
    inner_hookexec pm nm impls kw fr w1 = (w2, r) \<and>
    after (capture r) nm impls kw w2 = (w3, Inr out) \<longrightarrow>
      hookexec (fst (add_hookcall_monitoring pm before after)) nm impls kw fr w =
        (w3, get_result out)) \<and>
   snd (add_hookcall_monitoring pm before after) pm1 = pm1\<lparr>inner_hookexec := inner_hookexec pm\<rparr> \<and>
   snd (add_hookcall_monitoring pm before after) (fst (add_hookcall_monitoring pm before after)) = pm \<and>
   (before2 nm impls kw w = (v1, Inr ()) \<and>
    before nm impls kw v1 = (v2, Inr ()) \<and>
    inner_hookexec pm nm impls kw fr v2 = (v3, r1) \<and>
    after (capture r1) nm impls kw v3 = (v4, Inr out1) \<and>
    after2 (capture (get_result out1)) nm impls kw v4 = (v5, Inr out2) \<longrightarrow>
      hookexec (fst (add_hookcall_monitoring (fst (add_hookcall_monitoring pm before after))
                       before2 after2)) nm impls kw fr w =
        (v5, get_result out2))"
  by (simp add: add_hookcall_monitoring_def Let_def hookexec_def traced_hookexec_def from_call_def)

theorem add_hookcall_monitoring_wraps_witness:
  "log_before ''1'' ''h'' [] [] [] = ([''before 1''], Inr ()) \<and>
   inner_hookexec log_manager ''h'' [] [] False [''before 1''] =
     ([''before 1'', ''engine''], Inr (Many [1])) \<and>
   log_after ''1'' (capture (Inr (Many [1]))) ''h'' [] [] [''before 1'', ''engine''] =
     ([''before 1'', ''engine'', ''after 1''], Inr (Value (Many [1]))) \<and>
   hookexec (fst (add_hookcall_monitoring log_manager (log_before ''1'') (log_after ''1'')))
       ''h'' [] [] False [] =
     ([''before 1'', ''engine'', ''after 1''], Inr (Many [1])) \<and>
   log_before ''2'' ''h'' [] [] [] = ([''before 2''], Inr ()) \<and>
   log_before ''1'' ''h'' [] [] [''before 2''] = ([''before 2'', ''before 1''], Inr ()) \<and>
   inner_hookexec log_manager ''h'' [] [] False [''before 2'', ''before 1''] =
     ([''before 2'', ''before 1'', ''engine''], Inr (Many [1])) \<and>
   log_after ''1'' (capture (Inr (Many [1]))) ''h'' [] [] [''before 2'', ''before 1'', ''engine''] =
     ([''before 2'', ''before 1'', ''engine'', ''after 1''], Inr (Value (Many [1]))) \<and>
   log_after ''2'' (capture (get_result (Value (Many [1])))) ''h'' [] []
       [''before 2'', ''before 1'', ''engine'', ''after 1''] =
     ([''before 2'', ''before 1'', ''engine'', ''after 1'', ''after 2''], Inr (Value (Many [1]))) \<and>
   hookexec (fst (add_hookcall_monitoring
                    (fst (add_hookcall_monitoring log_manager (log_before ''1'') (log_after ''1'')))
                    (log_before ''2'') (log_after ''2'')))
       ''h'' [] [] False [] =
     ([''before 2'', ''before 1'', ''engine'', ''after 1'', ''after 2''], Inr (Many [1]))"
proof -
  have b1: "log_before ''1'' ''h'' [] [] [] = ([''before 1''], Inr ())"
    and e1: "inner_hookexec log_manager ''h'' [] [] False [''before 1''] =
               ([''before 1'', ''engine''], Inr (Many [1]))"
    and a1: "log_after ''1'' (capture (Inr (Many [1]))) ''h'' [] [] [''before 1'', ''engine''] =
               ([''before 1'', ''engine'', ''after 1''], Inr (Value (Many [1])))"
    by (simp_all add: log_before_def log_after_def log_manager_def init_def log_engine_def capture_def)
  have b2: "log_before ''2'' ''h'' [] [] [] = ([''before 2''], Inr ())"
    and b21: "log_before ''1'' ''h'' [] [] [''before 2''] = ([''before 2'', ''before 1''], Inr ())"
    and e2: "inner_hookexec log_manager ''h'' [] [] False [''before 2'', ''before 1''] =
               ([''before 2'', ''before 1'', ''engine''], Inr (Many [1]))"
    and a21: "log_after ''1'' (capture (Inr (Many [1]))) ''h'' [] []
                [''before 2'', ''before 1'', ''engine''] =
               ([''before 2'', ''before 1'', ''engine'', ''after 1''], Inr (Value (Many [1])))"
    and a2: "log_after ''2'' (capture (get_result (Value (Many [1])))) ''h'' [] []
                [''before 2'', ''before 1'', ''engine'', ''after 1''] =
               ([''before 2'', ''before 1'', ''engine'', ''after 1'', ''after 2''],
                Inr (Value (Many [1])))"
    by (simp_all add: log_before_def log_after_def log_manager_def init_def log_engine_def
        capture_def get_result_def)
  have get: "get_result (Value (Many [1::nat])) = Inr (Many [1])"
    by (simp add: get_result_def)
  have single:
    "hookexec (fst (add_hookcall_monitoring log_manager (log_before ''1'') (log_after ''1'')))
         ''h'' [] [] False [] =
       ([''before 1'', ''engine'', ''after 1''], Inr (Many [1]))"
    using add_hookcall_monitoring_wraps [of "log_before ''1''" "''h''" "[]" "[]" "[]"
        "[''before 1'']" log_manager False "[''before 1'', ''engine'']" "Inr (Many [1])"
        "log_after ''1''" "[''before 1'', ''engine'', ''after 1'']" "Value (Many [1])"]
      b1 e1 a1 get
    by simp
  have nested:
    "hookexec (fst (add_hookcall_monitoring
                      (fst (add_hookcall_monitoring log_manager (log_before ''1'') (log_after ''1'')))
                      (log_before ''2'') (log_after ''2'')))
         ''h'' [] [] False [] =
       ([''before 2'', ''before 1'', ''engine'', ''after 1'', ''after 2''], Inr (Many [1]))"
    using add_hookcall_monitoring_wraps [where before = "log_before ''1''" and after = "log_after ''1''"
        and nm = "''h''" and impls = "[]" and kw = "[]" and w = "[]" and pm = log_manager
        and fr = False and ?before2.0 = "log_before ''2''" and ?after2.0 = "log_after ''2''"
        and ?v1.0 = "[''before 2'']" and ?v2.0 = "[''before 2'', ''before 1'']"
        and ?v3.0 = "[''before 2'', ''before 1'', ''engine'']" and ?r1.0 = "Inr (Many [1])"
        and ?v4.0 = "[''before 2'', ''before 1'', ''engine'', ''after 1'']"
        and ?out1.0 = "Value (Many [1])"
        and ?v5.0 = "[''before 2'', ''before 1'', ''engine'', ''after 1'', ''after 2'']"
        and ?out2.0 = "Value (Many [1])"]
      b2 b21 e2 a21 a2 get
    by simp
  show ?thesis
    using b1 e1 a1 b2 b21 e2 a21 a2 single nested by simp
qed

subsection \<open>One member of the plugin, and the scan\<close>

lemma set_place: "set (place x xs) = insert x (set xs)"
  by (induction xs) auto

lemma filter_place:
  "\<not> P x \<Longrightarrow> filter P (place x xs) = filter P xs"
  by (induction xs) auto

lemma plugin_mk_HookImpl: "plugin (mk_HookImpl plug pname f opts) = plug"
  by (simp add: mk_HookImpl_def)

text \<open>One member: the registry changes in the hook namespace only, by at most one attachment.\<close>

lemma register_member_cases [consumes 1, case_names skip reject attach_new attach_unspecified attach_validated]:
  assumes "register_member pm plug pname m w = (evs, w1, pm1, r)"
  obtains "pm1 = pm" "evs = []" "r = Inr ()"
  | nm impl hc e where "pm1 = pm" "evs = [Verify nm impl]" "plugin impl = plug"
      "map_of (hook pm) nm = Some hc" "has_spec hc" "r = Inl e"
  | nm impl where
      "pm1 = pm\<lparr>hook := AList.update nm (add_hookimpl (mk_HookCaller nm) impl) (hook pm)\<rparr>"
      "evs = [Attach nm impl]" "plugin impl = plug" "map_of (hook pm) nm = None" "r = Inr ()"
  | nm impl hc where
      "pm1 = pm\<lparr>hook := AList.update nm (add_hookimpl hc impl) (hook pm)\<rparr>"
      "evs = [Attach nm impl]" "plugin impl = plug" "map_of (hook pm) nm = Some hc"
      "\<not> has_spec hc" "r = Inr ()"
  | nm impl hc where
      "pm1 = pm\<lparr>hook := AList.update nm (add_hookimpl hc impl) (hook pm)\<rparr>"
      "evs = [Verify nm impl, Attach nm impl]" "plugin impl = plug"
      "map_of (hook pm) nm = Some hc" "has_spec hc" "verify_hook hc impl = Inr ()" "r = Inr ()"
proof (cases "parse_hookimpl_opts pm (snd m)")
  case None
  with assms have "pm1 = pm" "evs = []" "r = Inr ()"
    by (simp_all add: register_member_def)
  then show thesis by (rule that(1))
next
  case (Some d)
  note d = this
  define impl where "impl = mk_HookImpl plug pname (snd m) (normalize_hookimpl_opts d)"
  define nm where "nm = py_or (opt_specname (normalize_hookimpl_opts d)) (fst m)"
  have pl: "plugin impl = plug" by (simp add: impl_def plugin_mk_HookImpl)
  show thesis
  proof (cases "map_of (hook pm) nm")
    case None
    with assms d
    have "pm1 = pm\<lparr>hook := AList.update nm (add_hookimpl (mk_HookCaller nm) impl) (hook pm)\<rparr>"
      "evs = [Attach nm impl]" "r = Inr ()"
      by (simp_all add: register_member_def Let_def impl_def nm_def)
    then show thesis using pl None by (intro that(3) [of nm impl]) simp_all
  next
    case (Some hc)
    note hc = this
    show thesis
    proof (cases "has_spec hc")
      case False
      with assms d hc
      have "pm1 = pm\<lparr>hook := AList.update nm (add_hookimpl hc impl) (hook pm)\<rparr>"
        "evs = [Attach nm impl]" "r = Inr ()"
        by (simp_all add: register_member_def Let_def impl_def nm_def)
      then show thesis using pl hc False by (intro that(4) [of nm hc impl]) simp_all
    next
      case True
      show thesis
      proof (cases "verify_hook hc impl")
        case (Inl e)
        with assms d hc True
        have "pm1 = pm" "evs = [Verify nm impl]" "r = Inl e"
          by (simp_all add: register_member_def Let_def impl_def nm_def)
        then show thesis using pl hc True by (intro that(2) [of nm impl hc e]) simp_all
      next
        case (Inr u)
        note v = this
        obtain w2 r2 where h: "maybe_apply_history (hookexec pm) hc impl w = (w2, r2)"
          by (cases "maybe_apply_history (hookexec pm) hc impl w")
        show thesis
        proof (cases r2)
          case (Inl e)
          with assms d hc True v h
          have "pm1 = pm" "evs = [Verify nm impl]" "r = Inl e"
            by (simp_all add: register_member_def Let_def impl_def nm_def)
          then show thesis using pl hc True by (intro that(2) [of nm impl hc e]) simp_all
        next
          case (Inr u2)
          with assms d hc True v h
          have "pm1 = pm\<lparr>hook := AList.update nm (add_hookimpl hc impl) (hook pm)\<rparr>"
            "evs = [Verify nm impl, Attach nm impl]" "r = Inr ()"
            by (simp_all add: register_member_def Let_def impl_def nm_def)
          then show thesis using pl hc True v by (intro that(5) [of nm hc impl]) simp_all
        qed
      qed
    qed
  qed
qed

lemma register_member_frame:
  assumes "register_member pm plug pname m w = (evs, w1, pm1, r)"
  shows "pm1 = pm\<lparr>hook := hook pm1\<rparr>"
  using assms by (cases rule: register_member_cases) simp_all


lemma register_members_Cons_cases [consumes 1, case_names fail ok]:
  assumes "register_members pm plug pname (m # ms) w = (evs, w1, pm1, r)"
  obtains e where "register_member pm plug pname m w = (evs, w1, pm1, Inl e)" "r = Inl e"
  | e1 v1 p1 e2 where "register_member pm plug pname m w = (e1, v1, p1, Inr ())"
      "register_members p1 plug pname ms v1 = (e2, w1, pm1, r)" "evs = e1 @ e2"
proof -
  obtain e1 v1 p1 r1 where s: "register_member pm plug pname m w = (e1, v1, p1, r1)"
    by (cases "register_member pm plug pname m w")
  show thesis
  proof (cases r1)
    case (Inl e)
    with assms s show thesis by (intro that(1) [of e]) simp_all
  next
    case (Inr u)
    obtain e2 v2 p2 r2 where l: "register_members p1 plug pname ms v1 = (e2, v2, p2, r2)"
      by (cases "register_members p1 plug pname ms v1")
    with assms s Inr show thesis by (intro that(2) [of e1 v1 p1 e2]) simp_all
  qed
qed

lemma frame_trans:
  "p1 = pm\<lparr>hook := hook p1\<rparr> \<Longrightarrow> p2 = p1\<lparr>hook := hook p2\<rparr> \<Longrightarrow> p2 = pm\<lparr>hook := hook p2\<rparr>"
  by (cases pm, cases p1, cases p2) simp

lemma register_members_frame:
  "register_members pm plug pname ms w = (evs, w1, pm1, r) \<Longrightarrow> pm1 = pm\<lparr>hook := hook pm1\<rparr>"
proof (induction ms arbitrary: pm w evs w1 pm1 r)
  case Nil
  then show ?case by simp
next
  case (Cons m ms)
  from Cons.prems show ?case
  proof (cases rule: register_members_Cons_cases)
    case (fail e)
    from fail(1) show ?thesis by (rule register_member_frame)
  next
    case (ok e1 v1 p1 e2)
    from register_member_frame [OF ok(1)] Cons.IH [OF ok(2)] show ?thesis
      by (rule frame_trans)
  qed
qed

subsection \<open>Attached implementations stay attached\<close>

lemma hookimpls_of_update:
  "hookimpls_of (pm\<lparr>hook := AList.update nm hc (hook pm)\<rparr>) k =
     (if k = nm then get_hookimpls hc else hookimpls_of pm k)"
  by (simp add: hookimpls_of_def update_conv')

lemma get_hookimpls_add: "get_hookimpls (add_hookimpl hc impl) = place impl (get_hookimpls hc)"
  by (simp add: get_hookimpls_def add_hookimpl_def)

lemma hookimpls_of_attach:
  assumes "pm1 = pm\<lparr>hook := AList.update nm (add_hookimpl hc impl) (hook pm)\<rparr>"
    and "get_hookimpls hc = hookimpls_of pm nm"
  shows "hookimpls_of pm1 k = (if k = nm then place impl (hookimpls_of pm nm) else hookimpls_of pm k)"
  by (simp add: assms hookimpls_of_update get_hookimpls_add)

lemma hookimpls_of_None: "map_of (hook pm) nm = None \<Longrightarrow> get_hookimpls (mk_HookCaller nm) = hookimpls_of pm nm"
  by (simp add: hookimpls_of_def get_hookimpls_def mk_HookCaller_def)

lemma hookimpls_of_Some: "map_of (hook pm) nm = Some hc \<Longrightarrow> get_hookimpls hc = hookimpls_of pm nm"
  by (simp add: hookimpls_of_def)

lemma register_member_hookimpls [consumes 1, case_names same attach]:
  assumes "register_member pm plug pname m w = (evs, w1, pm1, r)"
  obtains "pm1 = pm" "\<forall>k impl. Attach k impl \<notin> set evs"
  | nm impl where "plugin impl = plug" "r = Inr ()"
      "\<forall>k i. Attach k i \<in> set evs \<longleftrightarrow> k = nm \<and> i = impl"
      "\<forall>k. hookimpls_of pm1 k =
             (if k = nm then place impl (hookimpls_of pm nm) else hookimpls_of pm k)"
  using assms
proof (cases rule: register_member_cases)
  case skip
  then show ?thesis by (intro that(1)) simp_all
next
  case (reject nm impl hc e)
  then show ?thesis by (intro that(1)) simp_all
next
  case (attach_new nm impl)
  from hookimpls_of_attach [OF attach_new(1) hookimpls_of_None [OF attach_new(4)]] attach_new
  show ?thesis by (intro that(2) [of impl nm]) auto
next
  case (attach_unspecified nm impl hc)
  from hookimpls_of_attach [OF attach_unspecified(1) hookimpls_of_Some [OF attach_unspecified(4)]]
    attach_unspecified
  show ?thesis by (intro that(2) [of impl nm]) auto
next
  case (attach_validated nm impl hc)
  from hookimpls_of_attach [OF attach_validated(1) hookimpls_of_Some [OF attach_validated(4)]]
    attach_validated
  show ?thesis by (intro that(2) [of impl nm]) auto
qed

lemma register_member_keeps:
  assumes "register_member pm plug pname m w = (evs, w1, pm1, r)" and "attached pm k impl"
  shows "attached pm1 k impl"
  using assms
  by (cases rule: register_member_hookimpls) (auto simp: attached_def set_place)

lemma register_member_attaches:
  assumes "register_member pm plug pname m w = (evs, w1, pm1, r)" and "Attach k impl \<in> set evs"
  shows "attached pm1 k impl"
  using assms
  by (cases rule: register_member_hookimpls) (auto simp: attached_def set_place)

lemma register_members_keeps:
  "register_members pm plug pname ms w = (evs, w1, pm1, r) \<Longrightarrow> attached pm k impl \<Longrightarrow>
   attached pm1 k impl"
proof (induction ms arbitrary: pm w evs w1 pm1 r)
  case Nil
  then show ?case by simp
next
  case (Cons m ms)
  from Cons.prems(1) show ?case
  proof (cases rule: register_members_Cons_cases)
    case (fail e)
    from register_member_keeps [OF fail(1) Cons.prems(2)] show ?thesis .
  next
    case (ok e1 v1 p1 e2)
    from Cons.IH [OF ok(2) register_member_keeps [OF ok(1) Cons.prems(2)]] show ?thesis .
  qed
qed

lemma register_members_attaches:
  "register_members pm plug pname ms w = (evs, w1, pm1, r) \<Longrightarrow> Attach k impl \<in> set evs \<Longrightarrow>
   attached pm1 k impl"
proof (induction ms arbitrary: pm w evs w1 pm1 r)
  case Nil
  then show ?case by simp
next
  case (Cons m ms)
  from Cons.prems(1) show ?case
  proof (cases rule: register_members_Cons_cases)
    case (fail e)
    from register_member_attaches [OF fail(1) Cons.prems(2)] show ?thesis .
  next
    case (ok e1 v1 p1 e2)
    from Cons.prems(2) ok(3) consider "Attach k impl \<in> set e1" | "Attach k impl \<in> set e2"
      by auto
    then show ?thesis
    proof cases
      case 1
      from register_members_keeps [OF ok(2) register_member_attaches [OF ok(1) 1]] show ?thesis .
    next
      case 2
      from Cons.IH [OF ok(2) 2] show ?thesis .
    qed
  qed
qed

text \<open>The three ways \<^verbatim>\<open>register\<close> ends before the scan, and the scan.\<close>

lemma register_cases [consumes 1, case_names blocked name_bound plugin_known scan]:
  assumes "register pm plug nm w = (evs, w1, pm1, r)"
  obtains "map_of (name2plugin pm) (py_or nm (get_canonical_name plug)) = Some None"
      "evs = []" "w1 = w" "pm1 = pm" "r = Inr None"
  | q where "map_of (name2plugin pm) (py_or nm (get_canonical_name plug)) = Some (Some q)"
      "evs = []" "w1 = w" "pm1 = pm"
      "r = Inl (ValueError (Plugin_name_already_registered (py_or nm (get_canonical_name plug))))"
  | "map_of (name2plugin pm) (py_or nm (get_canonical_name plug)) = None"
      "Some plug \<in> snd ` set (name2plugin pm)" "evs = []" "w1 = w" "pm1 = pm"
      "r = Inl (ValueError (Plugin_already_registered_under_a_different_name
                              (py_or nm (get_canonical_name plug))))"
  | r0 where "map_of (name2plugin pm) (py_or nm (get_canonical_name plug)) = None"
      "Some plug \<notin> snd ` set (name2plugin pm)"
      "register_members
         (pm\<lparr>name2plugin := AList.update (py_or nm (get_canonical_name plug)) (Some plug)
                               (name2plugin pm)\<rparr>)
         plug (py_or nm (get_canonical_name plug)) (members plug) w = (evs, w1, pm1, r0)"
      "r = (case r0 of Inl e \<Rightarrow> Inl e | Inr _ \<Rightarrow> Inr (Some (py_or nm (get_canonical_name plug))))"
proof -
  define pname where "pname = py_or nm (get_canonical_name plug)"
  show thesis
  proof (cases "map_of (name2plugin pm) pname")
    case None
    note fresh = this
    show thesis
    proof (cases "Some plug \<in> snd ` set (name2plugin pm)")
      case True
      with assms fresh show thesis
        by (intro that(3)) (simp_all add: register_def Let_def pname_def)
    next
      case False
      obtain e0 v0 p0 r0 where l: "register_members
         (pm\<lparr>name2plugin := AList.update pname (Some plug) (name2plugin pm)\<rparr>)
         plug pname (members plug) w = (e0, v0, p0, r0)"
        by (cases "register_members
         (pm\<lparr>name2plugin := AList.update pname (Some plug) (name2plugin pm)\<rparr>)
         plug pname (members plug) w")
      with assms fresh False show thesis
        by (intro that(4) [of r0])
          (auto simp: register_def Let_def pname_def split: sum.splits)
    qed
  next
    case (Some v)
    show thesis
    proof (cases v)
      case None
      with assms Some show thesis
        by (intro that(1)) (simp_all add: register_def Let_def pname_def)
    next
      case (Some q)
      with assms \<open>map_of (name2plugin pm) pname = Some v\<close> show thesis
        by (intro that(2) [of q]) (simp_all add: register_def Let_def pname_def)
    qed
  qed
qed

lemma name2plugin_frame: "pm1 = pm\<lparr>hook := h\<rparr> \<Longrightarrow> name2plugin pm1 = name2plugin pm"
  by simp

text \<open>
  C10. When \<^verbatim>\<open>register\<close> ends with a \<^verbatim>\<open>PluginValidationError\<close>, the registry it leaves is not
  the one it started from: the resolved name is bound to the plugin, and every
  implementation that the call attached before the failure is still attached.
\<close>

theorem register_not_atomic:
  assumes "register pm plug nm w = (evs, w1, pm1, Inl (PluginValidationError p msg))"
  shows "name2plugin pm1 =
           AList.update (py_or nm (get_canonical_name plug)) (Some plug) (name2plugin pm) \<and>
         get_plugin pm1 (py_or nm (get_canonical_name plug)) = Some plug \<and>
         (Attach k impl \<in> set evs \<longrightarrow> attached pm1 k impl)"
  using assms
proof (cases rule: register_cases)
  case (scan r0)
  from name2plugin_frame [OF register_members_frame [OF scan(3)]]
  have n: "name2plugin pm1 =
           AList.update (py_or nm (get_canonical_name plug)) (Some plug) (name2plugin pm)"
    by simp
  then have "get_plugin pm1 (py_or nm (get_canonical_name plug)) = Some plug"
    by (simp add: get_plugin_def update_conv')
  with n register_members_attaches [OF scan(3)] show ?thesis
    by auto
qed simp_all

lemma manager_spec_eq: "manager_spec = eg_manager\<lparr>hook := [(''myhook'', eg_caller)]\<rparr>"
  by (simp add: manager_spec_def add_hookspecs_def add_hookspec_member_def parse_hookspec_opts_def
      eg_namespace_def eg_spec_function_def eg_manager_sel set_specification_def mk_HookCaller_def
      eg_caller_def eg_spec_def)

lemma eg_caller_sel:
  "has_spec eg_caller" "\<not> is_historic eg_caller" "hc_name eg_caller = ''myhook''"
  "hc_spec eg_caller = Some eg_spec" "spec_argnames eg_spec = [''x'']" "hc_hookimpls eg_caller = []"
  "hc_call_history eg_caller = []"
  by (simp_all add: eg_caller_def has_spec_def is_historic_def eg_spec_def mk_HookSpec_def
      eg_spec_function_def eg_spec_opts_def)

lemma register_bad:
  "register manager_spec plugin_bad None () =
     ([Attach ''first'' impl_first, Verify ''myhook'' impl_bad], (),
      manager_spec\<lparr>name2plugin := [(''bad'', Some plugin_bad)],
                     hook := [(''myhook'', eg_caller), (''first'', caller_first)]\<rparr>,
      Inl (PluginValidationError plugin_bad (Arguments_not_in_hookspec ''bad'' ''myhook'' {''y''})))"
proof -
  have args: "set (argnames impl_bad) - {''x''} = {''y''}" "\<not> set (argnames impl_bad) \<subseteq> {''x''}"
    by (auto simp: impl_bad_def mk_HookImpl_def eg_function_sel)
  have sel: "plugin impl_bad = plugin_bad" "plugin_name impl_bad = ''bad''" "\<not> hookwrapper impl_bad"
    by (simp_all add: impl_bad_def mk_HookImpl_def normalize_hookimpl_opts_def empty_opts_def)
  have rejected: "verify_hook eg_caller impl_bad =
      Inl (PluginValidationError plugin_bad (Arguments_not_in_hookspec ''bad'' ''myhook'' {''y''}))"
    by (simp add: verify_hook_def eg_caller_sel args sel)
  have opts: "opt_specname (normalize_hookimpl_opts empty_opts) = None"
    by (simp add: normalize_hookimpl_opts_def empty_opts_def)
  have parse: "parse_hookimpl_opts pm (eg_function empty_opts args) = Some empty_opts"
    if "project_name pm = ''eg''" for pm :: "(unit, unit) PluginManager" and args
    using that by (simp add: parse_hookimpl_opts_def eg_function_sel)
  show ?thesis
    by (simp add: register_def Let_def py_or_def get_canonical_name_def plugin_bad_def
        manager_spec_eq eg_manager_sel register_member_def parse opts add_hookimpl_def
        mk_HookCaller_def eg_caller_sel rejected
        flip: impl_first_def [unfolded plugin_bad_def] impl_bad_def [unfolded plugin_bad_def]
              caller_first_def)
qed

theorem register_not_atomic_witness:
  "register manager_spec plugin_bad None () =
     ([Attach ''first'' impl_first, Verify ''myhook'' impl_bad], (),
      manager_spec\<lparr>name2plugin := [(''bad'', Some plugin_bad)],
                     hook := [(''myhook'', eg_caller), (''first'', caller_first)]\<rparr>,
      Inl (PluginValidationError plugin_bad (Arguments_not_in_hookspec ''bad'' ''myhook'' {''y''}))) \<and>
   get_plugin (manager_spec\<lparr>name2plugin := [(''bad'', Some plugin_bad)],
                 hook := [(''myhook'', eg_caller), (''first'', caller_first)]\<rparr>) ''bad'' =
     Some plugin_bad \<and>
   Attach ''first'' impl_first \<in> set [Attach ''first'' impl_first, Verify ''myhook'' impl_bad] \<and>
   attached (manager_spec\<lparr>name2plugin := [(''bad'', Some plugin_bad)],
                 hook := [(''myhook'', eg_caller), (''first'', caller_first)]\<rparr>)
     ''first'' impl_first"
proof -
  have name: "py_or None (get_canonical_name plugin_bad) = ''bad''"
    by (simp add: py_or_def get_canonical_name_def plugin_bad_def)
  have empty: "name2plugin manager_spec = []"
    by (simp add: manager_spec_eq eg_manager_sel)
  show ?thesis
    using register_not_atomic [OF register_bad, of "''first''" impl_first] register_bad name empty
    by simp
qed

subsection \<open>Where validation runs\<close>





lemma contract_of_update:
  "contract_of (pm\<lparr>hook := AList.update nm hc (hook pm)\<rparr>) k =
     (if k = nm then Some (hc_name hc, hc_spec hc) else contract_of pm k)"
  by (simp add: contract_of_def update_conv')

lemma register_member_contract:
  assumes "register_member pm plug pname m w = (evs, w1, pm1, r)" and "contract_of pm k = Some c"
  shows "contract_of pm1 k = Some c"
proof -
  have new: "contract_of pm k = None" if "map_of (hook pm) k = None" for k
    using that by (simp add: contract_of_def)
  have old: "contract_of pm k = Some (hc_name hc, hc_spec hc)"
    if "map_of (hook pm) k = Some hc" for k hc
    using that by (simp add: contract_of_def)
  have add: "hc_name (add_hookimpl hc i) = hc_name hc" "hc_spec (add_hookimpl hc i) = hc_spec hc"
    for hc :: "('a, 'b) HookCaller" and i
    by (simp_all add: add_hookimpl_def)
  from assms show ?thesis
    by (cases rule: register_member_cases)
      (auto simp: contract_of_update add dest: new old)
qed




lemma register_members_contract:
  "register_members pm plug pname ms w = (evs, w1, pm1, r) \<Longrightarrow> contract_of pm k = Some c \<Longrightarrow>
   contract_of pm1 k = Some c"
proof (induction ms arbitrary: pm w evs w1 pm1 r)
  case Nil
  then show ?case by simp
next
  case (Cons m ms)
  from Cons.prems(1) show ?case
  proof (cases rule: register_members_Cons_cases)
    case (fail e)
    from register_member_contract [OF fail(1) Cons.prems(2)] show ?thesis .
  next
    case (ok e1 v1 p1 e2)
    from Cons.IH [OF ok(2) register_member_contract [OF ok(1) Cons.prems(2)]] show ?thesis .
  qed
qed




subsection \<open>Re-validation in add_hookspecs\<close>








subsection \<open>Register, then unregister\<close>

lemma remove_plugin_add:
  "plugin impl = plug \<Longrightarrow>
   remove_plugin (add_hookimpl hc impl) (Some plug) = remove_plugin hc (Some plug)"
  by (simp add: remove_plugin_def add_hookimpl_def filter_place)

lemma remove_plugin_mk: "remove_plugin (mk_HookCaller k) p = mk_HookCaller k"
  by (simp add: remove_plugin_def mk_HookCaller_def)

lemma remove_plugin_idem: "remove_plugin (remove_plugin hc p) p = remove_plugin hc p"
  by (simp add: remove_plugin_def)

lemma remove_plugin_id:
  "\<forall>impl \<in> set (get_hookimpls hc). Some (plugin impl) \<noteq> p \<Longrightarrow> remove_plugin hc p = hc"
  by (simp add: remove_plugin_def get_hookimpls_def filter_id_conv)

lemma update_fresh: "map_of xs k = None \<Longrightarrow> AList.update k v xs = xs @ [(k, v)]"
  by (induction xs) (auto split: if_splits)

lemma map_update_same:
  "map_of xs k = Some v \<Longrightarrow> f v1 = f v \<Longrightarrow> map (apsnd f) (AList.update k v1 xs) = map (apsnd f) xs"
  by (induction xs) (auto split: if_splits)

lemma register_member_strip:
  assumes "register_member pm plug pname m w = (evs, w1, pm1, r)"
  shows "\<exists>ks. map (apsnd (\<lambda>hc. remove_plugin hc (Some plug))) (hook pm1) =
              map (apsnd (\<lambda>hc. remove_plugin hc (Some plug))) (hook pm) @
              map (\<lambda>k. (k, mk_HookCaller k)) ks"
  using assms
proof (cases rule: register_member_cases)
  case skip
  then show ?thesis by (intro exI [of _ "[]"]) simp
next
  case (reject nm impl hc e)
  then show ?thesis by (intro exI [of _ "[]"]) simp
next
  case (attach_new nm impl)
  then show ?thesis
    by (intro exI [of _ "[nm]"]) (simp add: update_fresh remove_plugin_add remove_plugin_mk)
next
  case (attach_unspecified nm impl hc)
  then show ?thesis
    by (intro exI [of _ "[]"]) (simp add: map_update_same remove_plugin_add)
next
  case (attach_validated nm impl hc)
  then show ?thesis
    by (intro exI [of _ "[]"]) (simp add: map_update_same remove_plugin_add)
qed

lemma register_members_strip:
  "register_members pm plug pname ms w = (evs, w1, pm1, r) \<Longrightarrow>
   \<exists>ks. map (apsnd (\<lambda>hc. remove_plugin hc (Some plug))) (hook pm1) =
        map (apsnd (\<lambda>hc. remove_plugin hc (Some plug))) (hook pm) @
        map (\<lambda>k. (k, mk_HookCaller k)) ks"
proof (induction ms arbitrary: pm w evs w1 pm1 r)
  case Nil
  then show ?case by (intro exI [of _ "[]"]) simp
next
  case (Cons m ms)
  from Cons.prems show ?case
  proof (cases rule: register_members_Cons_cases)
    case (fail e)
    from register_member_strip [OF fail(1)] show ?thesis .
  next
    case (ok e1 v1 p1 e2)
    from register_member_strip [OF ok(1)] obtain ks1 where
      "map (apsnd (\<lambda>hc. remove_plugin hc (Some plug))) (hook p1) =
        map (apsnd (\<lambda>hc. remove_plugin hc (Some plug))) (hook pm) @
        map (\<lambda>k. (k, mk_HookCaller k)) ks1" ..
    moreover from Cons.IH [OF ok(2)] obtain ks2 where
      "map (apsnd (\<lambda>hc. remove_plugin hc (Some plug))) (hook pm1) =
        map (apsnd (\<lambda>hc. remove_plugin hc (Some plug))) (hook p1) @
        map (\<lambda>k. (k, mk_HookCaller k)) ks2" ..
    ultimately show ?thesis by (intro exI [of _ "ks1 @ ks2"]) simp
  qed
qed

lemma register_member_distinct:
  assumes "register_member pm plug pname m w = (evs, w1, pm1, r)"
    and "distinct (map fst (hook pm))"
  shows "distinct (map fst (hook pm1))"
  using assms by (cases rule: register_member_cases) (simp_all add: distinct_update)

lemma register_members_distinct:
  "register_members pm plug pname ms w = (evs, w1, pm1, r) \<Longrightarrow> distinct (map fst (hook pm)) \<Longrightarrow>
   distinct (map fst (hook pm1))"
proof (induction ms arbitrary: pm w evs w1 pm1 r)
  case Nil
  then show ?case by simp
next
  case (Cons m ms)
  from Cons.prems(1) show ?case
  proof (cases rule: register_members_Cons_cases)
    case (fail e)
    from register_member_distinct [OF fail(1) Cons.prems(2)] show ?thesis .
  next
    case (ok e1 v1 p1 e2)
    from Cons.IH [OF ok(2) register_member_distinct [OF ok(1) Cons.prems(2)]] show ?thesis .
  qed
qed

text \<open>\<^verbatim>\<open>unregister\<close> in closed form, for a registry with distinct hook names.\<close>

lemma map_entry_distinct:
  "distinct (map fst xs) \<Longrightarrow>
   AList.map_entry k f xs = map (\<lambda>(k1, v). (k1, if k1 = k then f v else v)) xs"
proof (induction xs)
  case Nil
  then show ?case by simp
next
  case (Cons a xs)
  obtain k1 v where a: "a = (k1, v)" by (cases a)
  show ?case
  proof (cases "k1 = k")
    case True
    with Cons.prems a have "k \<notin> fst ` set xs" by simp
    then have "map (\<lambda>(k1, v). (k1, if k1 = k then f v else v)) xs = xs"
      by (induction xs) auto
    with True a show ?thesis by simp
  next
    case False
    with Cons a show ?thesis by simp
  qed
qed

lemma foldl_map_entry:
  assumes "\<And>v. f (f v) = f v"
  shows "distinct (map fst (hook pm)) \<Longrightarrow>
   foldl (\<lambda>s k. s\<lparr>hook := AList.map_entry k f (hook s)\<rparr>) pm ks =
     pm\<lparr>hook := map (\<lambda>(k1, v). (k1, if k1 \<in> set ks then f v else v)) (hook pm)\<rparr>"
proof (induction ks arbitrary: pm)
  case Nil
  then show ?case by simp
next
  case (Cons k ks)
  define pm1 where "pm1 = pm\<lparr>hook := AList.map_entry k f (hook pm)\<rparr>"
  from Cons.prems have d: "distinct (map fst (hook pm1))"
    by (simp add: pm1_def distinct_map_entry)
  have "foldl (\<lambda>s k. s\<lparr>hook := AList.map_entry k f (hook s)\<rparr>) pm (k # ks) =
        foldl (\<lambda>s k. s\<lparr>hook := AList.map_entry k f (hook s)\<rparr>) pm1 ks"
    by (simp add: pm1_def)
  also have "\<dots> = pm1\<lparr>hook := map (\<lambda>(k1, v). (k1, if k1 \<in> set ks then f v else v)) (hook pm1)\<rparr>"
    by (rule Cons.IH [OF d])
  also have "\<dots> = pm\<lparr>hook := map (\<lambda>(k1, v). (k1, if k1 \<in> set (k # ks) then f v else v)) (hook pm)\<rparr>"
  proof -
    have "(\<lambda>(k1, v). (k1, if k1 \<in> set ks then f v else v)) \<circ>
          (\<lambda>(k1, v). (k1, if k1 = k then f v else v)) =
          (\<lambda>(k1, v). (k1, if k1 \<in> set (k # ks) then f v else v))"
      by (auto simp: fun_eq_iff assms)
    then show ?thesis
      by (simp add: pm1_def map_entry_distinct [OF Cons.prems])
  qed
  finally show ?case .
qed

lemma get_hookcallers_set:
  assumes "get_hookcallers pm p = Some hcs"
  shows "set hcs = {k. \<exists>hc. (k, hc) \<in> set (hook pm) \<and>
                       (\<exists>impl \<in> set (get_hookimpls hc). Some (plugin impl) = p)}"
proof -
  from assms have "hcs = concat (map (\<lambda>(nm, hc).
             map (\<lambda>_. nm) (filter (\<lambda>impl. Some (plugin impl) = p) (get_hookimpls hc)))
           (hook pm))"
    by (simp add: get_hookcallers_def split: if_splits)
  then show ?thesis
    by (auto simp: filter_empty_conv)
qed


text \<open>
  The loop of \<^verbatim>\<open>unregister\<close> over the hook callers of a plugin, in a registry with distinct
  hook names: every caller loses the implementations of the plugin.
\<close>

lemma strip_hookcallers:
  assumes d: "distinct (map fst (hook pm))"
    and hcs: "get_hookcallers pm p = Some hcs"
  shows "(if hcs = [] then pm
          else foldl (\<lambda>s k. s\<lparr>hook := AList.map_entry k (\<lambda>hc. remove_plugin hc p) (hook s)\<rparr>) pm hcs) =
         pm\<lparr>hook := map (apsnd (\<lambda>hc. remove_plugin hc p)) (hook pm)\<rparr>"
proof -
  let ?strip = "\<lambda>hc :: ('a, 'b) HookCaller. remove_plugin hc p"
  have idem: "?strip (?strip v) = ?strip v" for v
    by (simp add: remove_plugin_idem)
  have "(if hcs = [] then pm
         else foldl (\<lambda>s k. s\<lparr>hook := AList.map_entry k ?strip (hook s)\<rparr>) pm hcs) =
        pm\<lparr>hook := map (\<lambda>(k1, v). (k1, if k1 \<in> set hcs then ?strip v else v)) (hook pm)\<rparr>"
    using foldl_map_entry [of ?strip pm hcs, OF idem d] by simp
  moreover have "map (\<lambda>(k1, v). (k1, if k1 \<in> set hcs then ?strip v else v)) (hook pm) =
                 map (apsnd ?strip) (hook pm)"
  proof (rule map_cong [OF refl])
    fix x assume x: "x \<in> set (hook pm)"
    obtain k v where kv: "x = (k, v)" by (cases x)
    show "(case x of (k1, v) \<Rightarrow> (k1, if k1 \<in> set hcs then ?strip v else v)) = apsnd ?strip x"
    proof (cases "k \<in> set hcs")
      case True
      with kv show ?thesis by simp
    next
      case False
      with x kv get_hookcallers_set [OF hcs]
      have "\<forall>impl \<in> set (get_hookimpls v). Some (plugin impl) \<noteq> p"
        by blast
      then have "?strip v = v"
        by (rule remove_plugin_id)
      with kv show ?thesis by simp
    qed
  qed
  ultimately show ?thesis by simp
qed

lemma unregister_closed:
  assumes d: "distinct (map fst (hook pm))"
    and n: "get_name pm (Some plug) = Some n"
    and g: "get_plugin pm n = Some plug"
    and t: "truthy plug"
  shows "unregister pm (Some plug) None =
           (pm\<lparr>hook := map (apsnd (\<lambda>hc. remove_plugin hc (Some plug))) (hook pm),
               name2plugin := AList.delete n (name2plugin pm)\<rparr>,
            Inr (Some plug))"
proof -
  from n obtain hcs where hcs: "get_hookcallers pm (Some plug) = Some hcs"
    by (simp add: get_hookcallers_def)
  have "py_truth (get_plugin (pm\<lparr>hook := map (apsnd (\<lambda>hc. remove_plugin hc (Some plug))) (hook pm)\<rparr>) n)"
    using g t by (simp add: get_plugin_def py_truth_def)
  then show ?thesis
    by (simp add: unregister_def Let_def n hcs strip_hookcallers [OF d hcs])
qed

lemma find_name_absent: "v \<notin> snd ` set xs \<Longrightarrow> find_name xs v = None"
  by (induction xs) auto

lemma find_name_last: "v \<notin> snd ` set xs \<Longrightarrow> find_name (xs @ [(k, v)]) v = Some k"
  by (induction xs) auto

lemma delete_last: "map_of xs k = None \<Longrightarrow> AList.delete k (xs @ [(k, v)]) = xs"
  by (induction xs) (auto simp: AList.delete_eq split: if_splits)

lemma strip_foreign:
  assumes "\<forall>(k, hc) \<in> set xs. \<forall>impl \<in> set (get_hookimpls hc). plugin impl \<noteq> plug"
  shows "map (apsnd (\<lambda>hc. remove_plugin hc (Some plug))) xs = xs"
proof -
  have "apsnd (\<lambda>hc. remove_plugin hc (Some plug)) x = x" if "x \<in> set xs" for x
  proof -
    obtain k hc where x: "x = (k, hc)" by (cases x)
    with that assms have "\<forall>impl \<in> set (get_hookimpls hc). Some (plugin impl) \<noteq> Some plug"
      by auto
    from remove_plugin_id [OF this] x show ?thesis by simp
  qed
  then show ?thesis by (simp add: map_idI)
qed

lemma register_unregister_restores:
  assumes d: "distinct (map fst (hook pm))"
    and foreign: "\<forall>(k, hc) \<in> set (hook pm). \<forall>impl \<in> set (get_hookimpls hc). plugin impl \<noteq> plug"
    and new: "\<not> is_registered pm plug"
    and t: "truthy plug"
    and reg: "register pm plug nm w = (evs, w1, pm1, r)"
    and unreg: "unregister pm1 (Some plug) None = (pm2, r2)"
  shows "\<exists>ks. pm2 = pm\<lparr>hook := hook pm @ map (\<lambda>k. (k, mk_HookCaller k)) ks\<rparr>"
proof -
  from new have absent: "get_name pm (Some plug) = None"
    by (simp add: get_name_def is_registered_def find_name_absent)
  then have early: "unregister pm (Some plug) None =
      (pm, Inl (AssertionError ''plugin is not registered''))"
    by (simp add: unregister_def)
  from reg show ?thesis
  proof (cases rule: register_cases)
    case blocked
    with unreg early have "pm2 = pm" by simp
    then show ?thesis by (intro exI [of _ "[]"]) simp
  next
    case (name_bound q)
    with unreg early have "pm2 = pm" by simp
    then show ?thesis by (intro exI [of _ "[]"]) simp
  next
    case plugin_known
    with new show ?thesis by (simp add: is_registered_def)
  next
    case (scan r0)
    define pname where "pname = py_or nm (get_canonical_name plug)"
    define pm0 where "pm0 = pm\<lparr>name2plugin := name2plugin pm @ [(pname, Some plug)]\<rparr>"
    from scan(1,3) have l: "register_members pm0 plug pname (members plug) w = (evs, w1, pm1, r0)"
      by (simp add: pm0_def pname_def update_fresh)
    from register_members_frame [OF l] have f: "pm1 = pm0\<lparr>hook := hook pm1\<rparr>" .
    then have names: "name2plugin pm1 = name2plugin pm @ [(pname, Some plug)]"
      by (metis PluginManager.select_convs(2) PluginManager.surjective
          PluginManager.update_convs(1,2,4) pm0_def)
    from d have "distinct (map fst (hook pm0))" by (simp add: pm0_def)
    from register_members_distinct [OF l this] have d1: "distinct (map fst (hook pm1))" .
    from register_members_strip [OF l] obtain ks where
      ks: "map (apsnd (\<lambda>hc. remove_plugin hc (Some plug))) (hook pm1) =
           map (apsnd (\<lambda>hc. remove_plugin hc (Some plug))) (hook pm0) @
           map (\<lambda>k. (k, mk_HookCaller k)) ks" ..
    from scan(2) names have n1: "get_name pm1 (Some plug) = Some pname"
      by (simp add: get_name_def find_name_last)
    from scan(1) names have g1: "get_plugin pm1 pname = Some plug"
      by (simp add: get_plugin_def pname_def map_add_def)
    from unregister_closed [OF d1 n1 g1 t] unreg
    have "pm2 = pm1\<lparr>hook := map (apsnd (\<lambda>hc. remove_plugin hc (Some plug))) (hook pm1),
                     name2plugin := AList.delete pname (name2plugin pm1)\<rparr>"
      by simp
    also have "\<dots> = pm1\<lparr>hook := hook pm @ map (\<lambda>k. (k, mk_HookCaller k)) ks,
                          name2plugin := name2plugin pm\<rparr>"
      using ks strip_foreign [OF foreign] scan(1)
      by (simp add: names delete_last pname_def pm0_def)
    also have "\<dots> = pm\<lparr>hook := hook pm @ map (\<lambda>k. (k, mk_HookCaller k)) ks\<rparr>"
      by (subst f) (simp add: pm0_def)
    finally show ?thesis ..
  qed
qed

text \<open>
  The round trip on the empty manager: \<^verbatim>\<open>register(plugin_a)\<close> creates the caller \<^verbatim>\<open>myhook\<close>
  and attaches the implementation; \<^verbatim>\<open>unregister(plugin_a)\<close> leaves the empty caller.
\<close>

lemma register_unregister_restores_example:
  "register eg_manager plugin_a None () =
     ([Attach ''myhook'' impl_a], (),
      eg_manager\<lparr>name2plugin := [(''a'', Some plugin_a)],
                    hook := [(''myhook'', add_hookimpl (mk_HookCaller ''myhook'') impl_a)]\<rparr>,
      Inr (Some ''a'')) \<and>
   unregister (eg_manager\<lparr>name2plugin := [(''a'', Some plugin_a)],
                 hook := [(''myhook'', add_hookimpl (mk_HookCaller ''myhook'') impl_a)]\<rparr>)
       (Some plugin_a) None =
     (eg_manager\<lparr>hook := [(''myhook'', mk_HookCaller ''myhook'')]\<rparr>, Inr (Some plugin_a))"
proof -
  have opts: "opt_specname (normalize_hookimpl_opts empty_opts) = None"
    by (simp add: normalize_hookimpl_opts_def empty_opts_def)
  have parse: "parse_hookimpl_opts pm (eg_function empty_opts args) = Some empty_opts"
    if "project_name pm = ''eg''" for pm :: "(unit, unit) PluginManager" and args
    using that by (simp add: parse_hookimpl_opts_def eg_function_sel)
  have owner: "plugin impl_a = plugin_a"
    by (simp add: impl_a_def mk_HookImpl_def)
  have reg: "register eg_manager plugin_a None () =
     ([Attach ''myhook'' impl_a], (),
      eg_manager\<lparr>name2plugin := [(''a'', Some plugin_a)],
                    hook := [(''myhook'', add_hookimpl (mk_HookCaller ''myhook'') impl_a)]\<rparr>,
      Inr (Some ''a''))"
    by (simp add: register_def Let_def py_or_def get_canonical_name_def plugin_a_sel
        eg_manager_sel register_member_def parse opts flip: impl_a_def)
  have unreg: "unregister (eg_manager\<lparr>name2plugin := [(''a'', Some plugin_a)],
                 hook := [(''myhook'', add_hookimpl (mk_HookCaller ''myhook'') impl_a)]\<rparr>)
       (Some plugin_a) None =
     (eg_manager\<lparr>hook := [(''myhook'', mk_HookCaller ''myhook'')]\<rparr>, Inr (Some plugin_a))"
    by (simp add: unregister_defs add_hookimpl_def mk_HookCaller_def owner plugin_a_sel
        eg_manager_def init_def)
  from reg unreg show ?thesis by simp
qed

subsection \<open>The two points of validation\<close>

lemma manager_a_b_hook:
  "hook manager_a_b = [(''myhook'', \<lparr>hc_name = ''myhook'', hc_spec = None,
                                      hc_hookimpls = [impl_a], hc_call_history = []\<rparr>)]"
  "project_name manager_a_b = ''eg''"
  by (simp_all add: manager_a_b_eq impl_a_def eg_manager_sel)

lemma impl_a_sel:
  "argnames impl_a = [''x'']" "\<not> hookwrapper impl_a" "plugin impl_a = plugin_a"
  by (simp_all add: impl_a_def mk_HookImpl_def eg_function_sel normalize_hookimpl_opts_def
      empty_opts_def)






subsection \<open>Register, then unregister: a plugin whose truth value is false\<close>

text \<open>
  C6 at a failing input. \<^verbatim>\<open>plugin_f\<close> is not registered in the empty manager;
  \<^verbatim>\<open>register(plugin_f)\<close> binds it to \<^verbatim>\<open>f\<close> and \<^verbatim>\<open>unregister(plugin_f)\<close> returns the plugin,
  but the test \<^verbatim>\<open>if self._name2plugin.get(name):\<close> is false for this object, the binding
  is not deleted, and the plugin is still registered. For a plugin whose truth value is true
  the mapping and every implementation list are restored (lemma
  \<open>register_unregister_restores\<close>).
\<close>

theorem register_unregister_keeps_falsy_plugin:
  "\<not> is_registered eg_manager plugin_f \<and> name2plugin eg_manager = [] \<and>
   register eg_manager plugin_f None () =
     ([], (), eg_manager\<lparr>name2plugin := [(''f'', Some plugin_f)]\<rparr>, Inr (Some ''f'')) \<and>
   unregister (eg_manager\<lparr>name2plugin := [(''f'', Some plugin_f)]\<rparr>) (Some plugin_f) None =
     (eg_manager\<lparr>name2plugin := [(''f'', Some plugin_f)]\<rparr>, Inr (Some plugin_f)) \<and>
   is_registered (eg_manager\<lparr>name2plugin := [(''f'', Some plugin_f)]\<rparr>) plugin_f"
  by (simp add: is_registered_def eg_manager_sel register_def Let_def py_or_def
      get_canonical_name_def plugin_f_def unregister_defs)

subsection \<open>Blocked names\<close>

lemma find_name_present: "v \<in> snd ` set xs \<Longrightarrow> find_name xs v \<noteq> None"
  by (induction xs) force+

lemma remove_None: "remove_plugin hc None = hc"
  by (simp add: remove_plugin_def)

lemma map_remove_None: "map (apsnd (\<lambda>hc. remove_plugin hc None)) xs = xs"
  by (induction xs) (auto simp: remove_None)

text \<open>\<^verbatim>\<open>unregister(name=n)\<close> in closed form.\<close>

lemma unregister_by_name:
  assumes d: "distinct (map fst (hook pm))"
  shows "unregister pm None (Some n) =
           (pm\<lparr>hook := map (apsnd (\<lambda>hc. remove_plugin hc (get_plugin pm n))) (hook pm),
               name2plugin := (if py_truth (get_plugin pm n) then AList.delete n (name2plugin pm)
                               else name2plugin pm)\<rparr>,
            Inr (get_plugin pm n))"
proof (cases "get_plugin pm n")
  case None
  have "map (apsnd (\<lambda>hc :: ('a, 'b) HookCaller. remove_plugin hc None)) (hook pm) = hook pm"
    by (rule map_remove_None)
  with None get_hookcallers_None [of pm] show ?thesis
    by (auto simp: unregister_def Let_def py_truth_def)
next
  case (Some q)
  then have "(n, Some q) \<in> set (name2plugin pm)"
    by (auto simp: get_plugin_def split: option.splits dest: map_of_SomeD)
  then have "Some q \<in> snd ` set (name2plugin pm)"
    by force
  from find_name_present [OF this] obtain hcs where hcs: "get_hookcallers pm (Some q) = Some hcs"
    by (auto simp: get_hookcallers_def get_name_def)
  have g: "get_plugin (pm\<lparr>hook := h\<rparr>) n = get_plugin pm n" for h
    by (simp add: get_plugin_def)
  show ?thesis
    by (simp add: unregister_def Let_def Some hcs strip_hookcallers [OF d hcs] g)
qed

lemma map_of_apsnd: "map_of (map (apsnd f) xs) k = map_option f (map_of xs k)"
  by (induction xs) auto

lemma attached_strip:
  "attached (pm\<lparr>hook := map (apsnd (\<lambda>hc. remove_plugin hc p)) (hook pm), name2plugin := ns\<rparr>) k impl
     \<longleftrightarrow> attached pm k impl \<and> Some (plugin impl) \<noteq> p"
  by (cases "map_of (hook pm) k")
    (auto simp: attached_def hookimpls_of_def map_of_apsnd get_hookimpls_def remove_plugin_def)

text \<open>
  C2, as the code has it. \<^verbatim>\<open>set_blocked(n)\<close> never raises and leaves \<^verbatim>\<open>n\<close> blocked. In a
  registry with distinct hook names it first unregisters what is bound to \<^verbatim>\<open>n\<close>: every hook
  caller loses the implementations of that plugin and keeps all others, the binding of
  \<^verbatim>\<open>n\<close> is deleted (under the truth value of the bound object), and then \<^verbatim>\<open>n\<close> is bound to
  the tombstone. For a name \<^verbatim>\<open>n\<close> that is not the empty string and any registry in which
  \<^verbatim>\<open>n\<close> is blocked, \<^verbatim>\<open>register(plugin, name=n)\<close> returns \<^verbatim>\<open>None\<close>, raises nothing,
  validates and attaches nothing, and leaves the world and the registry unchanged.
\<close>

theorem set_blocked_blocks:
  "(distinct (map fst (hook pm)) \<longrightarrow>
      set_blocked pm n =
        (pm\<lparr>hook := map (apsnd (\<lambda>hc. remove_plugin hc (get_plugin pm n))) (hook pm),
            name2plugin := AList.update n None
              (if py_truth (get_plugin pm n) then AList.delete n (name2plugin pm)
               else name2plugin pm)\<rparr>,
         Inr ()) \<and>
      (attached (fst (set_blocked pm n)) k impl \<longleftrightarrow>
         attached pm k impl \<and> Some (plugin impl) \<noteq> get_plugin pm n)) \<and>
   snd (set_blocked pm n) = Inr () \<and>
   is_blocked (fst (set_blocked pm n)) n \<and>
   (n \<noteq> [] \<and> is_blocked pm1 n \<longrightarrow> register pm1 plug (Some n) w = ([], w, pm1, Inr None))"
proof -
  obtain pm' r where u: "unregister pm None (Some n) = (pm', Inr r)"
    by (simp add: unregister_def Let_def)
  have always: "snd (set_blocked pm n) = Inr ()" "is_blocked (fst (set_blocked pm n)) n"
    by (simp_all add: set_blocked_def u is_blocked_def update_conv')
  have blocked: "register pm1 plug (Some n) w = ([], w, pm1, Inr None)"
    if "n \<noteq> []" "is_blocked pm1 n"
    using that by (simp add: is_blocked_def register_def py_or_def)
  have closed: "set_blocked pm n =
        (pm\<lparr>hook := map (apsnd (\<lambda>hc. remove_plugin hc (get_plugin pm n))) (hook pm),
            name2plugin := AList.update n None
              (if py_truth (get_plugin pm n) then AList.delete n (name2plugin pm)
               else name2plugin pm)\<rparr>,
         Inr ())"
    if "distinct (map fst (hook pm))"
    by (simp add: set_blocked_def unregister_by_name [OF that])
  from always blocked closed show ?thesis
    by (auto simp: attached_strip)
qed

theorem set_blocked_blocks_witness:
  "distinct (map fst (hook manager_a_b)) \<and>
   get_plugin manager_a_b ''a'' = Some plugin_a \<and>
   attached manager_a_b ''myhook'' impl_a \<and>
   set_blocked manager_a_b ''a'' =
     (manager_a_b\<lparr>hook := [(''myhook'', mk_HookCaller ''myhook'')],
                   name2plugin := [(''b'', None), (''a'', None)]\<rparr>,
      Inr ()) \<and>
   \<not> attached (fst (set_blocked manager_a_b ''a'')) ''myhook'' impl_a \<and>
   is_blocked (fst (set_blocked manager_a_b ''a'')) ''a'' \<and>
   ''a'' \<noteq> [] \<and>
   register (fst (set_blocked manager_a_b ''a'')) plugin_a (Some ''a'') () =
     ([], (), fst (set_blocked manager_a_b ''a''), Inr None)"
proof -
  have d: "distinct (map fst (hook manager_a_b))"
    by (simp add: manager_a_b_hook)
  have g: "get_plugin manager_a_b ''a'' = Some plugin_a"
    by (simp add: manager_a_b_eq get_plugin_def)
  have att: "attached manager_a_b ''myhook'' impl_a"
    by (simp add: attached_def hookimpls_of_def manager_a_b_hook get_hookimpls_def)
  have hooks: "map (apsnd (\<lambda>hc. remove_plugin hc (Some plugin_a))) (hook manager_a_b) =
               [(''myhook'', mk_HookCaller ''myhook'')]"
    by (simp add: manager_a_b_hook remove_plugin_def impl_a_sel mk_HookCaller_def)
  have names: "AList.update ''a'' None (AList.delete ''a'' (name2plugin manager_a_b)) =
               [(''b'', None), (''a'', None)]"
    by (simp add: manager_a_b_eq AList.delete_eq)
  have truth: "py_truth (Some plugin_a)"
    by (simp add: py_truth_def plugin_a_sel)
  note c2 = set_blocked_blocks [where pm = manager_a_b and n = "''a''" and k = "''myhook''"
      and impl = impl_a and ?pm1.0 = "fst (set_blocked manager_a_b ''a'')" and plug = plugin_a
      and w = "()"]
  from c2 d g att hooks names truth impl_a_sel(3)
  have closed: "set_blocked manager_a_b ''a'' =
     (manager_a_b\<lparr>hook := [(''myhook'', mk_HookCaller ''myhook'')],
                   name2plugin := [(''b'', None), (''a'', None)]\<rparr>,
      Inr ())"
    and gone: "\<not> attached (fst (set_blocked manager_a_b ''a'')) ''myhook'' impl_a"
    and blocked: "is_blocked (fst (set_blocked manager_a_b ''a'')) ''a''"
    by auto
  have name: "''a'' \<noteq> []"
    by simp
  from c2 blocked name
  have refused: "register (fst (set_blocked manager_a_b ''a'')) plugin_a (Some ''a'') () =
     ([], (), fst (set_blocked manager_a_b ''a''), Inr None)"
    by blast
  from d g att closed gone blocked name refused show ?thesis
    by blast
qed

text \<open>
  The statement of the specification fails for the empty name: after \<^verbatim>\<open>set_blocked("")\<close> the empty name
  is blocked, and \<^verbatim>\<open>register(plugin_a, name="")\<close> resolves the name to \<^verbatim>\<open>a\<close>, registers
  the plugin and returns \<^verbatim>\<open>a\<close>.
\<close>

theorem register_after_blocking_empty_name:
  "is_blocked (fst (set_blocked eg_manager [])) [] \<and>
   snd (snd (snd (register (fst (set_blocked eg_manager [])) plugin_a (Some []) ()))) =
     Inr (Some ''a'') \<and>
   get_plugin (fst (snd (snd (register (fst (set_blocked eg_manager [])) plugin_a (Some []) ()))))
     ''a'' = Some plugin_a"
  by (simp add: set_blocked_def unregister_defs eg_manager_sel is_blocked_def register_defs
      plugin_a_sel eg_function_sel)

end
